theory Spec2Isabelle
  imports Complex_Main "HOL-Library.Word"
begin

section \<open>Go values shared by the two source files\<close>

text \<open>
  A run-time panic of the Go program is a value of the model: reading a slice, array or
  string at an index outside its bounds, and slicing a string outside its bounds.
\<close>

datatype panic = IndexOutOfRange | SliceOutOfRange

text \<open>A Go \<open>error\<close> value is identified with its message; \<open>None\<close> is the nil error.\<close>

type_synonym error = string

definition at_index :: "'a list \<Rightarrow> nat \<Rightarrow> panic + 'a" where
  "at_index xs k = (if k < length xs then Inr (xs ! k) else Inl IndexOutOfRange)"

text \<open>Sequencing of steps that may panic: the first panic is the result.\<close>

definition seq :: "panic + 'a \<Rightarrow> ('a \<Rightarrow> panic + 'b) \<Rightarrow> panic + 'b" where
  "seq m k = (case m of Inl e \<Rightarrow> Inl e | Inr v \<Rightarrow> k v)"

text \<open>
  The arithmetic of \<open>float64\<close> is not interpreted: a value of type \<open>'f\<close> stands for a
  \<open>float64\<close>, and the operations the program applies to such values are the fields of
  a record that every function of the model takes as its first argument. What is proved
  holds for every interpretation of these operations, IEEE 754 included.
  \<open>ffrom_int\<close> is the conversion \<open>float64(n)\<close> of an integer value, also used for the
  literals \<open>0.0\<close> and \<open>2.0\<close>; \<open>feq\<close> is the comparison \<open>==\<close>.
\<close>

record 'f float64_ops =
  ffrom_int :: "int \<Rightarrow> 'f"
  fadd :: "'f \<Rightarrow> 'f \<Rightarrow> 'f"
  fsub :: "'f \<Rightarrow> 'f \<Rightarrow> 'f"
  fmul :: "'f \<Rightarrow> 'f \<Rightarrow> 'f"
  fdiv :: "'f \<Rightarrow> 'f \<Rightarrow> 'f"
  fneg :: "'f \<Rightarrow> 'f"
  feq :: "'f \<Rightarrow> 'f \<Rightarrow> bool"

text \<open>
  The exact interpretation over the rationals, used to evaluate the model on examples
  whose arithmetic is exact in \<open>float64\<close> as well.
\<close>

definition exact_ops :: "rat float64_ops" where
  "exact_ops = \<lparr>ffrom_int = of_int, fadd = (+), fsub = (-), fmul = (*), fdiv = (/),
     fneg = uminus, feq = (=)\<rparr>"

section \<open>The path sink\<close>

text \<open>
  Modelled from the spec: the type \<open>Path\<close> and its methods are not among the sources.
  The spec calls it a sink that accepts move, line, quadratic-curve, cubic-curve and close
  operations and supports append. A path is modelled as the sequence of the builder calls
  made on it, in order; \<open>Append\<close> is concatenation. \<open>StartPos\<close> is the start anchor of
  the current sub-path: the position of the last \<open>MoveTo\<close>, the zero point when there
  is none. \<open>Empty\<close> holds of the path without any call.
\<close>

datatype 'f cmd =
    MoveTo 'f 'f
  | LineTo 'f 'f
  | QuadTo 'f 'f 'f 'f
  | CubeTo 'f 'f 'f 'f 'f 'f
  | Close

type_synonym 'f Path = "'f cmd list"

fun last_MoveTo :: "'f Path \<Rightarrow> ('f \<times> 'f) option" where
  "last_MoveTo [] = None"
| "last_MoveTo (c # cs) =
     (case last_MoveTo cs of
        Some q \<Rightarrow> Some q
      | None \<Rightarrow> (case c of MoveTo x y \<Rightarrow> Some (x, y) | _ \<Rightarrow> None))"

text \<open>
  Modelled from the spec: \<open>StartPos\<close>, the start anchor that a contour is closed back to.
\<close>

definition StartPos :: "'f float64_ops \<Rightarrow> 'f Path \<Rightarrow> 'f \<times> 'f" where
  "StartPos fo p =
     (case last_MoveTo p of Some q \<Rightarrow> q | None \<Rightarrow> (ffrom_int fo 0, ffrom_int fo 0))"

text \<open>Modelled from the spec: \<open>Append\<close>, the operations of one path after those of another.\<close>

definition Append :: "'f Path \<Rightarrow> 'f Path \<Rightarrow> 'f Path" where
  "Append p q = p @ q"

text \<open>Modelled from the spec: \<open>Empty\<close>, the outline without any operation.\<close>

definition Empty :: "'f Path \<Rightarrow> bool" where
  "Empty p = (p = [])"

section \<open>Glyph contours and \<open>GlyphPath\<close>\<close>

text \<open>
  The contour data of one glyph, as \<open>GlyphPath\<close> reads it. \<open>EndPoints\<close> holds \<open>uint16\<close>
  indices (the loop counter \<open>i\<close> is declared \<open>uint16\<close> and compared with them). The
  declaration of the coordinate type is not among the sources: the coordinates have an
  arbitrary type \<open>'c\<close>, and the two operations the program applies to them, \<open>+\<close> and
  the conversion \<open>float64(_)\<close>, are parameters.
\<close>

record 'c glyfContour =
  EndPoints :: "16 word list"
  OnCurve :: "bool list"
  XCoordinates :: "'c list"
  YCoordinates :: "'c list"

record ('c, 'f) coord_ops =
  cadd :: "'c \<Rightarrow> 'c \<Rightarrow> 'c"
  cfloat :: "'c \<Rightarrow> 'f"

definition exact_coords :: "(int, rat) coord_ops" where
  "exact_coords = \<lparr>cadd = (+), cfloat = of_int\<rparr>"

text \<open>
  The font as \<open>GlyphPath\<close> and \<open>StringPath\<close> use it. \<open>Head_UnitsPerEm\<close> is the integer
  value of \<open>sfnt.Head.UnitsPerEm\<close>. \<open>GlyphContour\<close> is the font-parsing capability: it
  returns a contour (or nil) and an error (or nil).
\<close>

record 'c SFNT =
  IsTrueType :: bool
  Head_UnitsPerEm :: int
  GlyphContour :: "16 word \<Rightarrow> 'c glyfContour option \<times> error option"

text \<open>\<open>x+float64(contour.XCoordinates[i])*f, y+float64(contour.YCoordinates[i])*f\<close>\<close>

definition scaled_point ::
  "'f float64_ops \<Rightarrow> ('c, 'f) coord_ops \<Rightarrow> 'c glyfContour \<Rightarrow> 'f \<Rightarrow> 'f \<Rightarrow> 'f \<Rightarrow> 16 word
    \<Rightarrow> panic + 'f \<times> 'f" where
  "scaled_point fo co c f x y i =
     seq (at_index (XCoordinates c) (unat i)) (\<lambda>xc.
     seq (at_index (YCoordinates c) (unat i)) (\<lambda>yc.
       Inr (fadd fo x (fmul fo (cfloat co xc) f), fadd fo y (fmul fo (cfloat co yc) f))))"

text \<open>
  \<open>xMid := float64(contour.XCoordinates[a]+contour.XCoordinates[b]) / 2.0\<close>, the same for
  \<open>yMid\<close>, and then the point \<open>x+xMid*f, y+yMid*f\<close>.
\<close>

definition scaled_midpoint ::
  "'f float64_ops \<Rightarrow> ('c, 'f) coord_ops \<Rightarrow> 'c glyfContour \<Rightarrow> 'f \<Rightarrow> 'f \<Rightarrow> 'f \<Rightarrow> 16 word
    \<Rightarrow> 16 word \<Rightarrow> panic + 'f \<times> 'f" where
  "scaled_midpoint fo co c f x y a b =
     seq (at_index (XCoordinates c) (unat a)) (\<lambda>xa.
     seq (at_index (XCoordinates c) (unat b)) (\<lambda>xb.
     seq (at_index (YCoordinates c) (unat a)) (\<lambda>ya.
     seq (at_index (YCoordinates c) (unat b)) (\<lambda>yb.
       Inr (fadd fo x (fmul fo (fdiv fo (cfloat co (cadd co xa xb)) (ffrom_int fo 2)) f),
            fadd fo y (fmul fo (fdiv fo (cfloat co (cadd co ya yb)) (ffrom_int fo 2)) f))))))"

text \<open>
  The body of the inner loop of \<open>GlyphPath\<close>, at point \<open>i\<close>: the state is the path and the
  flags \<open>first\<close>, \<open>firstOff\<close> and \<open>prevOff\<close>.
\<close>

definition GlyphPath_point ::
  "'f float64_ops \<Rightarrow> ('c, 'f) coord_ops \<Rightarrow> 'c glyfContour \<Rightarrow> 'f \<Rightarrow> 'f \<Rightarrow> 'f \<Rightarrow> 16 word
    \<Rightarrow> 'f Path \<times> bool \<times> bool \<times> bool \<Rightarrow> panic + ('f Path \<times> bool \<times> bool \<times> bool)" where
  "GlyphPath_point fo co c f x y i st =
     (case st of (p, first, firstOff, prevOff) \<Rightarrow>
        seq (at_index (OnCurve c) (unat i)) (\<lambda>on.
          if first then
            if on then
              seq (scaled_point fo co c f x y i) (\<lambda>(px, py).
                Inr (p @ [MoveTo px py], False, firstOff, prevOff))
            else if \<not> prevOff then
              Inr (p, first, True, True)
            else
              seq (scaled_midpoint fo co c f x y (i - 1) i) (\<lambda>(mx, my).
                Inr (p @ [MoveTo mx my], first, firstOff, prevOff))
          else if \<not> prevOff then
            if on then
              seq (scaled_point fo co c f x y i) (\<lambda>(px, py).
                Inr (p @ [LineTo px py], first, firstOff, prevOff))
            else
              Inr (p, first, firstOff, True)
          else
            if on then
              seq (scaled_point fo co c f x y (i - 1)) (\<lambda>(cx, cy).
              seq (scaled_point fo co c f x y i) (\<lambda>(px, py).
                Inr (p @ [QuadTo cx cy px py], first, firstOff, False)))
            else
              seq (scaled_midpoint fo co c f x y (i - 1) i) (\<lambda>(mx, my).
              seq (scaled_point fo co c f x y (i - 1)) (\<lambda>(cx, cy).
                Inr (p @ [QuadTo cx cy mx my], first, firstOff, prevOff)))))"

text \<open>
  The inner loop \<open>for ; i <= endPoint; i++\<close>. The counter is a \<open>uint16\<close> and \<open>i++\<close> wraps
  around, so the loop need not end: \<open>None\<close> is the run that never leaves the loop.
\<close>

partial_function (option) GlyphPath_points ::
  "'f float64_ops \<Rightarrow> ('c, 'f) coord_ops \<Rightarrow> 'c glyfContour \<Rightarrow> 'f \<Rightarrow> 'f \<Rightarrow> 'f \<Rightarrow> 16 word
    \<Rightarrow> 16 word \<Rightarrow> 'f Path \<times> bool \<times> bool \<times> bool
    \<Rightarrow> (panic + (16 word \<times> 'f Path \<times> bool \<times> bool \<times> bool)) option" where
  "GlyphPath_points fo co c f x y endPoint i st =
     (if i \<le> endPoint then
        (case GlyphPath_point fo co c f x y i st of
           Inl e \<Rightarrow> Some (Inl e)
         | Inr st' \<Rightarrow> GlyphPath_points fo co c f x y endPoint (i + 1) st')
      else Some (Inr (i, st)))"

text \<open>
  What follows the inner loop, for the contour that began at point \<open>j\<close>: the closing
  quadratic segment back to \<open>p.StartPos()\<close> when a control point is pending, then
  \<open>p.Close()\<close>.
\<close>

definition GlyphPath_close ::
  "'f float64_ops \<Rightarrow> ('c, 'f) coord_ops \<Rightarrow> 'c glyfContour \<Rightarrow> 'f \<Rightarrow> 'f \<Rightarrow> 'f \<Rightarrow> 16 word
    \<Rightarrow> 16 word \<Rightarrow> 'f Path \<times> bool \<times> bool \<times> bool \<Rightarrow> panic + 'f Path" where
  "GlyphPath_close fo co c f x y j i st =
     (case st of (p, first, firstOff, prevOff) \<Rightarrow>
        (let start = StartPos fo p in
         seq (if firstOff then
                if prevOff then
                  seq (scaled_midpoint fo co c f x y (i - 1) j) (\<lambda>(mx, my).
                    Inr (p @ [QuadTo mx my (fst start) (snd start)]))
                else
                  seq (scaled_point fo co c f x y (i - 1)) (\<lambda>(cx, cy).
                    Inr (p @ [QuadTo cx cy (fst start) (snd start)]))
              else if prevOff then
                seq (scaled_point fo co c f x y (i - 1)) (\<lambda>(cx, cy).
                  Inr (p @ [QuadTo cx cy (fst start) (snd start)]))
              else Inr p)
           (\<lambda>p'. Inr (p' @ [Close]))))"

text \<open>One round of the outer loop: the contour that ends at \<open>endPoint\<close>.\<close>

definition GlyphPath_contour ::
  "'f float64_ops \<Rightarrow> ('c, 'f) coord_ops \<Rightarrow> 'c glyfContour \<Rightarrow> 'f \<Rightarrow> 'f \<Rightarrow> 'f
    \<Rightarrow> 'f Path \<times> 16 word \<Rightarrow> 16 word \<Rightarrow> (panic + 'f Path \<times> 16 word) option" where
  "GlyphPath_contour fo co c f x y st endPoint =
     (case st of (p, i) \<Rightarrow>
        (case GlyphPath_points fo co c f x y endPoint i (p, True, False, False) of
           None \<Rightarrow> None
         | Some (Inl e) \<Rightarrow> Some (Inl e)
         | Some (Inr (i', st')) \<Rightarrow>
             (case GlyphPath_close fo co c f x y i i' st' of
                Inl e \<Rightarrow> Some (Inl e)
              | Inr p' \<Rightarrow> Some (Inr (p', i')))))"

text \<open>The outer loop \<open>for _, endPoint := range contour.EndPoints\<close>.\<close>

fun GlyphPath_contours ::
  "'f float64_ops \<Rightarrow> ('c, 'f) coord_ops \<Rightarrow> 'c glyfContour \<Rightarrow> 'f \<Rightarrow> 'f \<Rightarrow> 'f
    \<Rightarrow> 'f Path \<times> 16 word \<Rightarrow> 16 word list \<Rightarrow> (panic + 'f Path \<times> 16 word) option" where
  "GlyphPath_contours fo co c f x y st [] = Some (Inr st)"
| "GlyphPath_contours fo co c f x y st (endPoint # rest) =
     (case GlyphPath_contour fo co c f x y st endPoint of
        None \<Rightarrow> None
      | Some (Inl e) \<Rightarrow> Some (Inl e)
      | Some (Inr st') \<Rightarrow> GlyphPath_contours fo co c f x y st' rest)"

text \<open>
  \<open>GlyphPath\<close> returns a path (or nil) and an error (or nil), unless it panics (\<open>Inl\<close>) or
  does not return (\<open>None\<close>).
\<close>

definition GlyphPath ::
  "'f float64_ops \<Rightarrow> ('c, 'f) coord_ops \<Rightarrow> 'c SFNT \<Rightarrow> 16 word \<Rightarrow> 'f \<Rightarrow> 'f \<Rightarrow> 'f
    \<Rightarrow> (panic + 'f Path option \<times> error option) option" where
  "GlyphPath fo co sfnt glyphID sz x y =
     (if IsTrueType sfnt then
        (case GlyphContour sfnt glyphID of (contour, err) \<Rightarrow>
           (case contour of
              None \<Rightarrow> Some (Inr (None, err))
            | Some c \<Rightarrow>
                if err \<noteq> None then Some (Inr (None, err))
                else
                  (let f = fdiv fo sz (ffrom_int fo (Head_UnitsPerEm sfnt)) in
                   case GlyphPath_contours fo co c f x y ([], 0) (EndPoints c) of
                     None \<Rightarrow> None
                   | Some (Inl e) \<Rightarrow> Some (Inl e)
                   | Some (Inr (p, i)) \<Rightarrow> Some (Inr (Some p, None)))))
      else Some (Inr (None, Some ''CFF not supported'')))"

section \<open>\<open>StringPath\<close>\<close>

text \<open>
  A positioned glyph as the shaping capability returns it. The pen \<open>x, y\<close> is declared
  \<open>int32\<close> and the advances and offsets are added to it, so they are \<open>int32\<close> as well.
\<close>

record Glyph =
  ID :: "16 word"
  XAdvance :: "32 word"
  YAdvance :: "32 word"
  XOffset :: "32 word"
  YOffset :: "32 word"

text \<open>
  One round of the loop of \<open>StringPath\<close>, on the state \<open>(p, x, y)\<close>. The result is the
  state after the round together with the error of \<open>GlyphPath\<close>: when that error is not
  nil the state is unchanged and the loop is left by \<open>return p, err\<close>.
\<close>

definition StringPath_glyph ::
  "'f float64_ops \<Rightarrow> ('c, 'f) coord_ops \<Rightarrow> 'c SFNT \<Rightarrow> 'f \<Rightarrow> 'f
    \<Rightarrow> 'f Path \<times> 32 word \<times> 32 word \<Rightarrow> Glyph
    \<Rightarrow> (panic + (('f Path \<times> 32 word \<times> 32 word) \<times> error option)) option" where
  "StringPath_glyph fo co sfnt sz f st glyph =
     (case st of (p, x, y) \<Rightarrow>
        (case GlyphPath fo co sfnt (ID glyph) sz
                (fmul fo (ffrom_int fo (sint (x + XOffset glyph))) f)
                (fmul fo (ffrom_int fo (sint (y + YOffset glyph))) f) of
           None \<Rightarrow> None
         | Some (Inl pn) \<Rightarrow> Some (Inl pn)
         | Some (Inr (path, err)) \<Rightarrow>
             if err \<noteq> None then Some (Inr ((p, x, y), err))
             else
               Some (Inr (((case path of Some q \<Rightarrow> Append p q | None \<Rightarrow> p),
                           x + XAdvance glyph, y + YAdvance glyph), None))))"

text \<open>
  The loop \<open>for _, glyph := range glyphs\<close>. Its result is the state in which the loop
  was left and the error it was left with: nil after the last glyph.
\<close>

fun StringPath_loop ::
  "'f float64_ops \<Rightarrow> ('c, 'f) coord_ops \<Rightarrow> 'c SFNT \<Rightarrow> 'f \<Rightarrow> 'f
    \<Rightarrow> 'f Path \<times> 32 word \<times> 32 word \<Rightarrow> Glyph list
    \<Rightarrow> (panic + (('f Path \<times> 32 word \<times> 32 word) \<times> error option)) option" where
  "StringPath_loop fo co sfnt sz f st [] = Some (Inr (st, None))"
| "StringPath_loop fo co sfnt sz f st (glyph # rest) =
     (case StringPath_glyph fo co sfnt sz f st glyph of
        None \<Rightarrow> None
      | Some (Inl pn) \<Rightarrow> Some (Inl pn)
      | Some (Inr (st', err)) \<Rightarrow>
          if err \<noteq> None then Some (Inr (st', err))
          else StringPath_loop fo co sfnt sz f st' rest)"

text \<open>
  \<open>StringPath\<close>. The shaping capability is a parameter: \<open>NewFont\<close> is what
  \<open>shaping.NewFont(sfnt.Data, 0)\<close> returns, an error or the font whose \<open>Shape\<close> maps the
  text and the size to the run of positioned glyphs.
\<close>

definition StringPath ::
  "'f float64_ops \<Rightarrow> ('c, 'f) coord_ops \<Rightarrow> 'c SFNT \<Rightarrow> error + (string \<Rightarrow> 'f \<Rightarrow> Glyph list)
    \<Rightarrow> string \<Rightarrow> 'f \<Rightarrow> (panic + 'f Path option \<times> error option) option" where
  "StringPath fo co sfnt NewFont text sz =
     (case NewFont of
        Inl err \<Rightarrow> Some (Inr (None, Some err))
      | Inr Shape \<Rightarrow>
          (let f = fdiv fo sz (ffrom_int fo (Head_UnitsPerEm sfnt));
               glyphs = Shape text sz
           in case StringPath_loop fo co sfnt sz f ([], 0, 0) glyphs of
                None \<Rightarrow> None
              | Some (Inl pn) \<Rightarrow> Some (Inl pn)
              | Some (Inr ((p, x, y), err)) \<Rightarrow> Some (Inr (Some p, err))))"

section \<open>Typographic substitution\<close>

text \<open>
  A Go string is a sequence of bytes: \<open>string\<close>, a list of 8-bit characters. A \<open>rune\<close> is
  a code point; the runes that occur here are never negative.
\<close>

type_synonym rune = nat

definition RuneError :: rune where
  "RuneError = 0xFFFD"

text \<open>
  \<open>utf8.DecodeRuneInString\<close> of the Go standard library: the first rune of the string and
  its width in bytes; \<open>(RuneError, 0)\<close> for the empty string, \<open>(RuneError, 1)\<close> for an
  encoding that is invalid, incomplete, overlong, a surrogate or out of range.
\<close>

definition DecodeRuneInString :: "string \<Rightarrow> rune \<times> nat" where
  "DecodeRuneInString s =
     (if s = [] then (RuneError, 0)
      else
        let s0 = (of_char (s ! 0) :: nat) in
        if s0 < 0x80 then (s0, 1)
        else if s0 < 0xC2 \<or> 0xF4 < s0 then (RuneError, 1)
        else
          let sz = (if s0 < 0xE0 then 2 else if s0 < 0xF0 then 3 else (4::nat));
              lo = (if s0 = 0xE0 then 0xA0 else if s0 = 0xF0 then 0x90 else (0x80::nat));
              hi = (if s0 = 0xED then 0x9F else if s0 = 0xF4 then 0x8F else (0xBF::nat))
          in
          if length s < sz then (RuneError, 1)
          else
            let s1 = (of_char (s ! 1) :: nat) in
            if s1 < lo \<or> hi < s1 then (RuneError, 1)
            else if sz \<le> 2 then ((s0 mod 0x20) * 0x40 + s1 mod 0x40, 2)
            else
              let s2 = (of_char (s ! 2) :: nat) in
              if s2 < 0x80 \<or> 0xBF < s2 then (RuneError, 1)
              else if sz \<le> 3 then
                ((s0 mod 0x10) * 0x1000 + (s1 mod 0x40) * 0x40 + s2 mod 0x40, 3)
              else
                let s3 = (of_char (s ! 3) :: nat) in
                if s3 < 0x80 \<or> 0xBF < s3 then (RuneError, 1)
                else
                  ((s0 mod 0x08) * 0x40000 + (s1 mod 0x40) * 0x1000
                     + (s2 mod 0x40) * 0x40 + s3 mod 0x40, 4))"

text \<open>
  \<open>unicode.IsSpace\<close> of the Go standard library: in Latin-1 the characters tab, line
  feed, vertical tab, form feed, carriage return, space, U+0085 and U+00A0; beyond, the
  code points with the property White\_Space.
\<close>

definition isspace :: "rune \<Rightarrow> bool" where
  "isspace r =
     (if r \<le> 0xFF then r \<in> set [0x09, 0x0A, 0x0B, 0x0C, 0x0D, 0x20, 0x85, 0xA0]
      else r = 0x1680 \<or> (0x2000 \<le> r \<and> r \<le> 0x200A) \<or> r = 0x2028 \<or> r = 0x2029
           \<or> r = 0x202F \<or> r = 0x205F \<or> r = 0x3000)"

text \<open>The characters of the literal that \<open>ispunct\<close> ranges over, as code points.\<close>

definition punct_runes :: "rune list" where
  "punct_runes =
     [0x21, 0x22, 0x23, 0x24, 0x25, 0x26, 0x27, 0x28, 0x29, 0x2A, 0x2B, 0x2C, 0x2D, 0x2E, 0x2F,
      0x3A, 0x3B, 0x3C, 0x3D, 0x3E, 0x3F, 0x40,
      0x5B, 0x5C, 0x5D, 0x5E, 0x5F, 0x60,
      0x7B, 0x7C, 0x7D, 0x7E]"

definition ispunct :: "rune \<Rightarrow> bool" where
  "ispunct r = (r \<in> set punct_runes)"

definition isWordBoundary :: "rune \<Rightarrow> bool" where
  "isWordBoundary r = (r = 0 \<or> isspace r \<or> ispunct r)"

text \<open>\<open>s[:i] + target + s[i+n:]\<close>, and the length of the target.\<close>

definition stringReplace :: "string \<Rightarrow> nat \<Rightarrow> nat \<Rightarrow> string \<Rightarrow> panic + string \<times> nat" where
  "stringReplace s i n target =
     (if i \<le> length s \<and> i + n \<le> length s
      then Inr (take i s @ target @ drop (i + n) s, length target)
      else Inl SliceOutOfRange)"

text \<open>The slice \<open>s[k:]\<close>.\<close>

definition slice_from :: "string \<Rightarrow> nat \<Rightarrow> panic + string" where
  "slice_from s k = (if k \<le> length s then Inr (drop k s) else Inl SliceOutOfRange)"

text \<open>The test \<open>s[k] == c\<close>.\<close>

definition byte_is :: "string \<Rightarrow> nat \<Rightarrow> char \<Rightarrow> panic + bool" where
  "byte_is s k c = seq (at_index s k) (\<lambda>b. Inr (b = c))"

text \<open>
  The chain \<open>s[i] == c0 && s[i+1] == c1 && ...\<close> for the characters of a literal, read
  from left to right; a comparison that fails ends it.
\<close>

fun bytes_are :: "string \<Rightarrow> nat \<Rightarrow> string \<Rightarrow> panic + bool" where
  "bytes_are s i [] = Inr True"
| "bytes_are s i (c # cs) =
     seq (byte_is s i c) (\<lambda>b. if b then bytes_are s (i + 1) cs else Inr False)"

text \<open>The test \<open>i+k < len(s) && s[i] == c0 && ... && s[i+k] == ck\<close>.\<close>

definition literal_at :: "string \<Rightarrow> nat \<Rightarrow> nat \<Rightarrow> string \<Rightarrow> panic + bool" where
  "literal_at s i k lit = (if i + k < length s then bytes_are s i lit else Inr False)"

text \<open>The replacement characters, in UTF-8.\<close>

definition ellipsis :: string where "ellipsis = [CHR 0xE2, CHR 0x80, CHR 0xA6]"
definition em_dash :: string where "em_dash = [CHR 0xE2, CHR 0x80, CHR 0x94]"
definition en_dash :: string where "en_dash = [CHR 0xE2, CHR 0x80, CHR 0x93]"
definition copyright :: string where "copyright = [CHR 0xC2, CHR 0xA9]"
definition registered :: string where "registered = [CHR 0xC2, CHR 0xAE]"
definition trademark :: string where "trademark = [CHR 0xE2, CHR 0x84, CHR 0xA2]"
definition left_double_quote :: string where "left_double_quote = [CHR 0xE2, CHR 0x80, CHR 0x9C]"
definition right_double_quote :: string where "right_double_quote = [CHR 0xE2, CHR 0x80, CHR 0x9D]"
definition left_single_quote :: string where "left_single_quote = [CHR 0xE2, CHR 0x80, CHR 0x98]"
definition right_single_quote :: string where "right_single_quote = [CHR 0xE2, CHR 0x80, CHR 0x99]"
definition one_half :: string where "one_half = [CHR 0xC2, CHR 0xBD]"
definition one_quarter :: string where "one_quarter = [CHR 0xC2, CHR 0xBC]"
definition three_quarters :: string where "three_quarters = [CHR 0xC2, CHR 0xBE]"
definition plus_minus :: string where "plus_minus = [CHR 0xC2, CHR 0xB1]"

text \<open>
  \<open>quoteReplace\<close>: the flag behind the pointer \<open>isOpen\<close> is passed in and returned with
  the new string and the width of what was written.
\<close>

definition quoteReplace ::
  "string \<Rightarrow> nat \<Rightarrow> rune \<Rightarrow> rune \<Rightarrow> rune \<Rightarrow> bool \<Rightarrow> panic + (string \<times> nat) \<times> bool" where
  "quoteReplace s i prev quote next isOpen =
     (let isOpen' =
        (if prev = 0 \<and> next = 0 then \<not> isOpen
         else if isspace prev \<and> next = 0 then True
         else if ispunct prev \<and> next = 0 then False
         else if next = 0 then False
         else if prev = 0 \<and> isspace next then False
         else if isspace prev \<and> isspace next then \<not> isOpen
         else if ispunct prev \<and> isspace next then False
         else if isspace next then False
         else if prev = 0 \<and> ispunct next then False
         else if isspace prev \<and> ispunct next then True
         else if ispunct prev \<and> ispunct next then \<not> isOpen
         else if ispunct next then False
         else if prev = 0 then True
         else if isspace prev then True
         else if ispunct prev then True
         else False)
      in
      seq (if quote = 0x22 then
             if isOpen' then stringReplace s i 1 left_double_quote
             else stringReplace s i 1 right_double_quote
           else if quote = 0x27 then
             if isOpen' then stringReplace s i 1 left_single_quote
             else stringReplace s i 1 right_single_quote
           else Inr (s, 1))
        (\<lambda>res. Inr (res, isOpen')))"

text \<open>
  The state of the scan after one round of the loop of \<open>substituteTypography\<close>: the
  string, \<open>size\<close>, \<open>r\<close> and the two quote flags. A round ends with \<open>continue\<close> or at the
  end of the body; both lead to the next round.
\<close>

type_synonym scan = "string \<times> nat \<times> rune \<times> bool \<times> bool"

text \<open>\<open>s, size = stringReplace(s, i, n, target); continue\<close>\<close>

definition replace_continue ::
  "string \<Rightarrow> nat \<Rightarrow> nat \<Rightarrow> string \<Rightarrow> rune \<Rightarrow> bool \<Rightarrow> bool \<Rightarrow> panic + scan" where
  "replace_continue s i n target r inSingleQuote inDoubleQuote =
     seq (stringReplace s i n target) (\<lambda>(s', size').
       Inr (s', size', r, inSingleQuote, inDoubleQuote))"

text \<open>\<open>rNext\<close>: zero unless \<open>k < len(s)\<close>, then the rune decoded from \<open>s[k:]\<close>.\<close>

definition rune_after :: "string \<Rightarrow> nat \<Rightarrow> panic + rune" where
  "rune_after s k =
     (if k < length s then seq (slice_from s k) (\<lambda>t. Inr (fst (DecodeRuneInString t)))
      else Inr 0)"

text \<open>The part of the loop body under the comment \<open>// fractions\<close>.\<close>

definition fractions ::
  "string \<Rightarrow> nat \<Rightarrow> rune \<Rightarrow> rune \<Rightarrow> nat \<Rightarrow> bool \<Rightarrow> bool \<Rightarrow> panic + scan" where
  "fractions s i rPrev r sz inSingleQuote inDoubleQuote =
     seq (if i + 2 < length s
          then seq (byte_is s (i + 1) (CHR ''/'')) (\<lambda>b.
                 Inr (b \<and> isWordBoundary rPrev \<and> rPrev \<noteq> 0x2F))
          else Inr False) (\<lambda>g.
       if g then
         seq (rune_after s (i + 3)) (\<lambda>rNext.
           if isWordBoundary rNext \<and> rNext \<noteq> 0x2F then
             seq (byte_is s i (CHR ''1'')) (\<lambda>a1. seq (if a1 then byte_is s (i + 2) (CHR ''2'') else Inr False) (\<lambda>b1.
             if b1 then replace_continue s i 3 one_half r inSingleQuote inDoubleQuote
             else
             seq (byte_is s i (CHR ''1'')) (\<lambda>a2. seq (if a2 then byte_is s (i + 2) (CHR ''4'') else Inr False) (\<lambda>b2.
             if b2 then replace_continue s i 3 one_quarter r inSingleQuote inDoubleQuote
             else
             seq (byte_is s i (CHR ''3'')) (\<lambda>a3. seq (if a3 then byte_is s (i + 2) (CHR ''4'') else Inr False) (\<lambda>b3.
             if b3 then replace_continue s i 3 three_quarters r inSingleQuote inDoubleQuote
             else
             seq (byte_is s i (CHR ''+'')) (\<lambda>a4. seq (if a4 then byte_is s (i + 2) (CHR ''-'') else Inr False) (\<lambda>b4.
             if b4 then replace_continue s i 3 plus_minus r inSingleQuote inDoubleQuote
             else Inr (s, sz, r, inSingleQuote, inDoubleQuote)))))))))
           else Inr (s, sz, r, inSingleQuote, inDoubleQuote))
       else Inr (s, sz, r, inSingleQuote, inDoubleQuote))"

text \<open>The part of the loop body under the comment \<open>// quotes\<close>, and what follows it.\<close>

definition quotes ::
  "string \<Rightarrow> nat \<Rightarrow> rune \<Rightarrow> rune \<Rightarrow> nat \<Rightarrow> bool \<Rightarrow> bool \<Rightarrow> panic + scan" where
  "quotes s i rPrev r sz inSingleQuote inDoubleQuote =
     seq (byte_is s i (CHR 0x22)) (\<lambda>dq.
     seq (if dq then Inr True else byte_is s i (CHR 0x27)) (\<lambda>q.
       if q then
         seq (rune_after s (i + 1)) (\<lambda>rNext.
         seq (byte_is s i (CHR 0x22)) (\<lambda>dq'.
           if dq' then
             seq (quoteReplace s i rPrev r rNext inDoubleQuote) (\<lambda>((s', size'), isOpen).
               Inr (s', size', r, inSingleQuote, isOpen))
           else
             seq (quoteReplace s i rPrev r rNext inSingleQuote) (\<lambda>((s', size'), isOpen).
               Inr (s', size', r, isOpen, inDoubleQuote))))
       else fractions s i rPrev r sz inSingleQuote inDoubleQuote))"

text \<open>
  The loop body from \<open>utf8.DecodeRuneInString(s[i:])\<close> on, at a position \<open>i\<close> that passed
  the test \<open>i >= len(s)\<close>.
\<close>

definition substituteTypography_round ::
  "string \<Rightarrow> nat \<Rightarrow> rune \<Rightarrow> bool \<Rightarrow> bool \<Rightarrow> panic + scan" where
  "substituteTypography_round s i rPrev inSingleQuote inDoubleQuote =
     seq (slice_from s i) (\<lambda>t.
       (case DecodeRuneInString t of (r, sz) \<Rightarrow>
          seq (literal_at s i 2 ''...'') (\<lambda>b.
          if b then replace_continue s i 3 ellipsis r inSingleQuote inDoubleQuote
          else
          seq (literal_at s i 4 ''. . .'') (\<lambda>b.
          if b then replace_continue s i 5 ellipsis r inSingleQuote inDoubleQuote
          else
          seq (literal_at s i 2 ''---'') (\<lambda>b.
          if b then replace_continue s i 3 em_dash r inSingleQuote inDoubleQuote
          else
          seq (literal_at s i 1 ''--'') (\<lambda>b.
          if b then replace_continue s i 2 en_dash r inSingleQuote inDoubleQuote
          else
          seq (literal_at s i 2 ''(c)'') (\<lambda>b.
          if b then replace_continue s i 3 copyright r inSingleQuote inDoubleQuote
          else
          seq (literal_at s i 2 ''(r)'') (\<lambda>b.
          if b then replace_continue s i 3 registered r inSingleQuote inDoubleQuote
          else
          seq (literal_at s i 3 ''(tm)'') (\<lambda>b.
          if b then replace_continue s i 4 trademark r inSingleQuote inDoubleQuote
          else quotes s i rPrev r sz inSingleQuote inDoubleQuote)))))))))"

text \<open>
  The loop \<open>for { rPrev = r; i += size; if i >= len(s) { break }; ... }\<close>, entered with
  the values of \<open>s\<close>, \<open>i\<close>, \<open>size\<close>, \<open>r\<close> and the flags. The loop has no bound of its own:
  \<open>None\<close> is the run that never leaves it.
\<close>

partial_function (option) substituteTypography_loop ::
  "string \<Rightarrow> nat \<Rightarrow> nat \<Rightarrow> rune \<Rightarrow> bool \<Rightarrow> bool \<Rightarrow> (panic + string \<times> bool \<times> bool) option" where
  "substituteTypography_loop s i sz r inSingleQuote inDoubleQuote =
     (if i + sz \<ge> length s then Some (Inr (s, inSingleQuote, inDoubleQuote))
      else
        (case substituteTypography_round s (i + sz) r inSingleQuote inDoubleQuote of
           Inl pn \<Rightarrow> Some (Inl pn)
         | Inr (s', sz', r', inSingleQuote', inDoubleQuote') \<Rightarrow>
             substituteTypography_loop s' (i + sz) sz' r' inSingleQuote' inDoubleQuote'))"

text \<open>The part of a \<open>Font\<close> that the substitutions read.\<close>

record Font =
  typography :: bool
  ligatures :: "(string \<times> rune) list"

definition substituteTypography ::
  "Font \<Rightarrow> string \<Rightarrow> bool \<Rightarrow> bool \<Rightarrow> (panic + string \<times> bool \<times> bool) option" where
  "substituteTypography f s inSingleQuote inDoubleQuote =
     (if typography f then substituteTypography_loop s 0 0 0 inSingleQuote inDoubleQuote
      else Some (Inr (s, inSingleQuote, inDoubleQuote)))"

section \<open>Font faces\<close>

text \<open>
  The decorators that the source defines. Each is a value of an empty struct type, one
  type per decorator. \<open>FontDecorator\<close> is an interface and other packages can implement
  it: the model, and what is proved of \<open>Equals\<close>, covers the faces whose decorations are
  among these eight.
\<close>

datatype FontDecorator =
    FontUnderline
  | FontOverline
  | FontStrikethrough
  | FontDoubleUnderline
  | FontDottedUnderline
  | FontDashedUnderline
  | FontSineUnderline
  | FontSawtoothUnderline

text \<open>
  \<open>FontFace\<close>. The fields \<open>family\<close> and \<open>Font\<close> are pointers: the model keeps the
  address. \<open>Color\<close> is a \<open>color.RGBA\<close>, four bytes. The slice \<open>deco\<close> is nil (\<open>None\<close>) or
  a list of decorators.
\<close>

record 'f FontFace =
  family :: nat
  Font :: nat
  Size :: 'f
  Style :: int
  Variant :: int
  Color :: "8 word \<times> 8 word \<times> 8 word \<times> 8 word"
  deco :: "FontDecorator list option"
  Scale :: 'f
  Voffset :: 'f
  FauxBold :: 'f
  FauxItalic :: 'f

text \<open>
  \<open>reflect.DeepEqual\<close> on two slices of these decorators: both nil, or both not nil, of
  the same length and with deeply equal elements; two of these decorators are deeply equal
  when they are of the same type.
\<close>

definition DeepEqual :: "FontDecorator list option \<Rightarrow> FontDecorator list option \<Rightarrow> bool" where
  "DeepEqual a b =
     (case (a, b) of
        (None, None) \<Rightarrow> True
      | (Some xs, Some ys) \<Rightarrow> length xs = length ys \<and> list_all2 (=) xs ys
      | _ \<Rightarrow> False)"

text \<open>
  The comparison \<open>==\<close> of two \<open>float64\<close> values, as the Go language defines it after
  IEEE 754. It depends on the bit patterns of the values only, and for \<open>Equals\<close> a
  \<open>float64\<close> is its bit pattern: one sign bit, eleven bits of
  exponent, fifty-two bits of fraction. A value is a NaN when all bits of its exponent are
  set and its fraction is not zero, and a zero when all its bits but the sign are zero.
  Two values compare equal when neither is a NaN and they are the same number: the same
  bit pattern, or two zeros of either sign.
\<close>

type_synonym float64 = "64 word"

definition float64_is_NaN :: "float64 \<Rightarrow> bool" where
  "float64_is_NaN w = ((unat w div 2 ^ 52) mod 2 ^ 11 = 2047 \<and> unat w mod 2 ^ 52 \<noteq> 0)"

definition float64_is_zero :: "float64 \<Rightarrow> bool" where
  "float64_is_zero w = (unat w mod 2 ^ 63 = 0)"

definition float64_eq :: "float64 \<Rightarrow> float64 \<Rightarrow> bool" where
  "float64_eq a b =
     (\<not> float64_is_NaN a \<and> \<not> float64_is_NaN b
      \<and> (a = b \<or> (float64_is_zero a \<and> float64_is_zero b)))"

definition Equals :: "float64 FontFace \<Rightarrow> float64 FontFace \<Rightarrow> bool" where
  "Equals ff other =
     (Font ff = Font other \<and> float64_eq (Size ff) (Size other) \<and> Style ff = Style other
      \<and> Variant ff = Variant other \<and> Color ff = Color other
      \<and> DeepEqual (deco ff) (deco other))"

text \<open>
  The loop \<open>for i, r := range s\<close> over a string: the byte index and the rune of each
  position, decoded as \<open>utf8.DecodeRuneInString\<close> does.
\<close>

function range_string_from :: "nat \<Rightarrow> string \<Rightarrow> (nat \<times> rune) list" where
  "range_string_from i s =
     (if s = [] then []
      else (i, fst (DecodeRuneInString s))
             # range_string_from (i + snd (DecodeRuneInString s))
                 (drop (snd (DecodeRuneInString s)) s))"
  by pat_completeness auto
termination
proof (relation "measure (\<lambda>(i, s). length s)")
  show "wf (measure (\<lambda>(i :: nat, s :: string). length s))"
    by simp
next
  fix i :: nat and s :: string
  assume ne: "s \<noteq> []"
  have "1 \<le> snd (DecodeRuneInString s)"
    using ne by (cases s) (auto simp: DecodeRuneInString_def Let_def Suc_le_eq)
  then show "((i + snd (DecodeRuneInString s), drop (snd (DecodeRuneInString s)) s), (i, s))
               \<in> measure (\<lambda>(i, s). length s)"
    using ne by simp
qed

definition range_string :: "string \<Rightarrow> (nat \<times> rune) list" where
  "range_string s = range_string_from 0 s"

text \<open>
  A segment of a loaded glyph: the operation and the three points of \<open>Args\<close>. The switch
  of \<open>ToPath\<close> has a case for four operations; \<open>SegmentOpOther\<close> is any other value.
  The fixed-point type of the points and of the metrics is a type parameter \<open>'q\<close>.
\<close>

datatype SegmentOp =
    SegmentOpMoveTo
  | SegmentOpLineTo
  | SegmentOpQuadTo
  | SegmentOpCubeTo
  | SegmentOpOther

record 'q Segment =
  Op :: SegmentOp
  Args :: "('q \<times> 'q) \<times> ('q \<times> 'q) \<times> ('q \<times> 'q)"

text \<open>
  The font-parsing capability behind \<open>ff.Font.sfnt\<close>, as \<open>ToPath\<close> calls it: each
  function returns its value and an error (or nil).
\<close>

record 'q sfnt_Font =
  GlyphIndex :: "rune \<Rightarrow> 16 word \<times> error option"
  LoadGlyph :: "16 word \<Rightarrow> 'q \<Rightarrow> 'q Segment list \<times> error option"
  Kern :: "16 word \<Rightarrow> 16 word \<Rightarrow> 'q \<Rightarrow> 'q \<times> error option"
  GlyphAdvance :: "16 word \<Rightarrow> 'q \<Rightarrow> 'q \<times> error option"

text \<open>
  Functions of the package that \<open>ToPath\<close> calls and that are not among the sources; the
  spec does not describe them, and they are parameters: the conversions to and from
  fixed point, the comparison \<open>Equals\<close> of two points, and the method \<open>Offset\<close> of a
  path with the fill rule \<open>NonZero\<close>.
\<close>

record ('q, 'f) canvas_ops =
  toI26_6 :: "'f \<Rightarrow> 'q"
  fromI26_6 :: "'q \<Rightarrow> 'f"
  fromP26_6 :: "'q \<times> 'q \<Rightarrow> 'f \<times> 'f"
  Point_Equals :: "'f \<times> 'f \<Rightarrow> 'f \<times> 'f \<Rightarrow> bool"
  Path_Offset :: "'f \<Rightarrow> 'f Path \<Rightarrow> 'f Path"

text \<open>\<open>pt := fromP26_6(a); pt.X += ff.FauxItalic * -pt.Y\<close>\<close>

definition sheared ::
  "'f float64_ops \<Rightarrow> ('q, 'f) canvas_ops \<Rightarrow> 'f FontFace \<Rightarrow> 'q \<times> 'q \<Rightarrow> 'f \<times> 'f" where
  "sheared fo cv ff a =
     (let pt = fromP26_6 cv a
      in (fadd fo (fst pt) (fmul fo (FauxItalic ff) (fneg fo (snd pt))), snd pt))"

text \<open>
  One round of the loop over the segments of a glyph, on the state \<open>(p, start0, end)\<close>;
  \<open>i\<close> is the index of the segment.
\<close>

definition ToPath_segment ::
  "'f float64_ops \<Rightarrow> ('q, 'f) canvas_ops \<Rightarrow> 'f FontFace \<Rightarrow> 'f \<Rightarrow> nat \<Rightarrow> 'q Segment
    \<Rightarrow> 'f Path \<times> ('f \<times> 'f) \<times> ('f \<times> 'f) \<Rightarrow> 'f Path \<times> ('f \<times> 'f) \<times> ('f \<times> 'f)" where
  "ToPath_segment fo cv ff x i segment st =
     (case st of (p, start0, end0) \<Rightarrow>
        (case Op segment of
           SegmentOpMoveTo \<Rightarrow>
             (let p1 = (if i \<noteq> 0 \<and> Point_Equals cv start0 end0 then p @ [Close] else p);
                  e = sheared fo cv ff (fst (Args segment))
              in (p1 @ [MoveTo (fadd fo x (fst e)) (fsub fo (Voffset ff) (snd e))], e, e))
         | SegmentOpLineTo \<Rightarrow>
             (let e = sheared fo cv ff (fst (Args segment))
              in (p @ [LineTo (fadd fo x (fst e)) (fsub fo (Voffset ff) (snd e))], start0, e))
         | SegmentOpQuadTo \<Rightarrow>
             (let cp = sheared fo cv ff (fst (Args segment));
                  e = sheared fo cv ff (fst (snd (Args segment)))
              in (p @ [QuadTo (fadd fo x (fst cp)) (fsub fo (Voffset ff) (snd cp))
                              (fadd fo x (fst e)) (fsub fo (Voffset ff) (snd e))], start0, e))
         | SegmentOpCubeTo \<Rightarrow>
             (let cp1 = sheared fo cv ff (fst (Args segment));
                  cp2 = sheared fo cv ff (fst (snd (Args segment)));
                  e = sheared fo cv ff (snd (snd (Args segment)))
              in (p @ [CubeTo (fadd fo x (fst cp1)) (fsub fo (Voffset ff) (snd cp1))
                              (fadd fo x (fst cp2)) (fsub fo (Voffset ff) (snd cp2))
                              (fadd fo x (fst e)) (fsub fo (Voffset ff) (snd e))], start0, e))
         | SegmentOpOther \<Rightarrow> (p, start0, end0)))"

fun ToPath_segments ::
  "'f float64_ops \<Rightarrow> ('q, 'f) canvas_ops \<Rightarrow> 'f FontFace \<Rightarrow> 'f \<Rightarrow> nat \<Rightarrow> 'q Segment list
    \<Rightarrow> 'f Path \<times> ('f \<times> 'f) \<times> ('f \<times> 'f) \<Rightarrow> 'f Path \<times> ('f \<times> 'f) \<times> ('f \<times> 'f)" where
  "ToPath_segments fo cv ff x i [] st = st"
| "ToPath_segments fo cv ff x i (segment # rest) st =
     ToPath_segments fo cv ff x (i + 1) rest (ToPath_segment fo cv ff x i segment st)"

text \<open>
  One round of the loop of \<open>ToPath\<close> over the runes, on the state \<open>(p, x, prevIndex)\<close>, for
  the rune \<open>r\<close> at byte index \<open>i\<close>. \<open>Inl\<close> is an early return with the values returned,
  \<open>Inr\<close> the state after the round.
\<close>

definition ToPath_rune ::
  "'f float64_ops \<Rightarrow> ('q, 'f) canvas_ops \<Rightarrow> 'q sfnt_Font \<Rightarrow> 'f FontFace
    \<Rightarrow> 'f Path \<times> 'f \<times> 16 word \<Rightarrow> nat \<times> rune
    \<Rightarrow> ('f Path \<times> 'f) + ('f Path \<times> 'f \<times> 16 word)" where
  "ToPath_rune fo cv sf ff st ir =
     (case st of (p, x, prevIndex) \<Rightarrow>
      case ir of (i, r) \<Rightarrow>
      let ppem = toI26_6 cv (fmul fo (Size ff) (Scale ff)) in
      case GlyphIndex sf r of (index, err) \<Rightarrow>
        if err \<noteq> None then Inl (p, ffrom_int fo 0)
        else
          case LoadGlyph sf index ppem of (segments, err) \<Rightarrow>
            if err \<noteq> None then Inl (p, ffrom_int fo 0)
            else
              let x1 = (if i \<noteq> 0 then
                          (case Kern sf prevIndex index ppem of (kern, err) \<Rightarrow>
                             if err = None then fadd fo x (fromI26_6 cv kern) else x)
                        else x);
                  zero = (ffrom_int fo 0, ffrom_int fo 0)
              in
              case ToPath_segments fo cv ff x1 0 segments (p, zero, zero) of
                (p1, start0, end0) \<Rightarrow>
                  let p2 = (if \<not> Empty p1 \<and> Point_Equals cv start0 end0 then p1 @ [Close]
                            else p1);
                      p3 = (if \<not> feq fo (FauxBold ff) (ffrom_int fo 0)
                            then Path_Offset cv (FauxBold ff) p2 else p2);
                      x2 = (case GlyphAdvance sf index ppem of (advance, err) \<Rightarrow>
                              if err = None then fadd fo x1 (fromI26_6 cv advance) else x1)
                  in Inr (p3, x2, index))"

fun ToPath_runes ::
  "'f float64_ops \<Rightarrow> ('q, 'f) canvas_ops \<Rightarrow> 'q sfnt_Font \<Rightarrow> 'f FontFace
    \<Rightarrow> 'f Path \<times> 'f \<times> 16 word \<Rightarrow> (nat \<times> rune) list
    \<Rightarrow> ('f Path \<times> 'f) + ('f Path \<times> 'f \<times> 16 word)" where
  "ToPath_runes fo cv sf ff st [] = Inr st"
| "ToPath_runes fo cv sf ff st (ir # rest) =
     (case ToPath_rune fo cv sf ff st ir of
        Inl ret \<Rightarrow> Inl ret
      | Inr st' \<Rightarrow> ToPath_runes fo cv sf ff st' rest)"

text \<open>
  \<open>ToPath\<close> returns a path and an advance; \<open>sf\<close> is the font behind \<open>ff.Font.sfnt\<close>.
\<close>

definition ToPath ::
  "'f float64_ops \<Rightarrow> ('q, 'f) canvas_ops \<Rightarrow> 'q sfnt_Font \<Rightarrow> 'f FontFace \<Rightarrow> string
    \<Rightarrow> 'f Path \<times> 'f" where
  "ToPath fo cv sf ff s =
     (case ToPath_runes fo cv sf ff ([], ffrom_int fo 0, 0) (range_string s) of
        Inl ret \<Rightarrow> ret
      | Inr (p, x, prevIndex) \<Rightarrow> (p, x))"

section \<open>Notions used to state the properties\<close>

text \<open>The position of point \<open>k\<close> of a contour, scaled by \<open>f\<close> and moved to the origin \<open>(x, y)\<close>.\<close>

definition point_at ::
  "'f float64_ops \<Rightarrow> ('c, 'f) coord_ops \<Rightarrow> 'c glyfContour \<Rightarrow> 'f \<Rightarrow> 'f \<Rightarrow> 'f \<Rightarrow> nat
    \<Rightarrow> 'f \<times> 'f" where
  "point_at fo co c f x y k =
     (fadd fo x (fmul fo (cfloat co (XCoordinates c ! k)) f),
      fadd fo y (fmul fo (cfloat co (YCoordinates c ! k)) f))"

definition move_to_point ::
  "'f float64_ops \<Rightarrow> ('c, 'f) coord_ops \<Rightarrow> 'c glyfContour \<Rightarrow> 'f \<Rightarrow> 'f \<Rightarrow> 'f \<Rightarrow> nat
    \<Rightarrow> 'f cmd" where
  "move_to_point fo co c f x y k =
     MoveTo (fst (point_at fo co c f x y k)) (snd (point_at fo co c f x y k))"

definition line_to_point ::
  "'f float64_ops \<Rightarrow> ('c, 'f) coord_ops \<Rightarrow> 'c glyfContour \<Rightarrow> 'f \<Rightarrow> 'f \<Rightarrow> 'f \<Rightarrow> nat
    \<Rightarrow> 'f cmd" where
  "line_to_point fo co c f x y k =
     LineTo (fst (point_at fo co c f x y k)) (snd (point_at fo co c f x y k))"

text \<open>
  The operations of a contour of on-curve points from point \<open>j\<close> to point \<open>e\<close>: a move
  to the first point, a line to each further point, and the closing of the sub-path.
\<close>

definition on_curve_ops ::
  "'f float64_ops \<Rightarrow> ('c, 'f) coord_ops \<Rightarrow> 'c glyfContour \<Rightarrow> 'f \<Rightarrow> 'f \<Rightarrow> 'f \<Rightarrow> 16 word
    \<Rightarrow> 16 word \<Rightarrow> 'f Path" where
  "on_curve_ops fo co c f x y j e =
     move_to_point fo co c f x y (unat j)
       # map (line_to_point fo co c f x y) [unat j + 1 ..< unat e + 1] @ [Close]"

text \<open>
  The segments of a path: a \<open>LineTo\<close> is a straight segment, and so is the \<open>Close\<close> that
  joins the end of a sub-path to its start; \<open>QuadTo\<close> and \<open>CubeTo\<close> are curves.
\<close>

fun is_curve :: "'f cmd \<Rightarrow> bool" where
  "is_curve (QuadTo a b c d) = True"
| "is_curve (CubeTo a b c d e f) = True"
| "is_curve _ = False"

fun is_straight :: "'f cmd \<Rightarrow> bool" where
  "is_straight (LineTo a b) = True"
| "is_straight Close = True"
| "is_straight _ = False"

text \<open>
  The position at which a glyph of a shaped run is to be decoded: the sum of the advances
  of the glyphs before it plus its own offset, added up in \<open>int32\<close>, converted and
  scaled by \<open>f\<close>.
\<close>

definition glyph_position :: "'f float64_ops \<Rightarrow> 'f \<Rightarrow> Glyph list \<Rightarrow> Glyph \<Rightarrow> 'f \<times> 'f" where
  "glyph_position fo f before g =
     (fmul fo (ffrom_int fo (sint (sum_list (map XAdvance before) + XOffset g))) f,
      fmul fo (ffrom_int fo (sint (sum_list (map YAdvance before) + YOffset g))) f)"

text \<open>
  A round of the scan of \<open>substituteTypography\<close> at position \<open>i\<close> advances when it does
  not panic and leaves the next position \<open>i + size\<close> inside the new string, with fewer
  bytes behind it than there were behind \<open>i\<close>.
\<close>

definition scan_advances :: "string \<Rightarrow> nat \<Rightarrow> panic + scan \<Rightarrow> bool" where
  "scan_advances s i res =
     (case res of
        Inl pn \<Rightarrow> False
      | Inr (s', sz', r', a', b') \<Rightarrow> i + sz' \<le> length s' \<and> length s' < length s + sz')"

text \<open>
  The lookup of a rune fails in \<open>ToPath\<close> when \<open>GlyphIndex\<close> returns an error for it, or
  \<open>LoadGlyph\<close> does for its glyph at the size of the face.
\<close>

definition lookup_fails ::
  "'f float64_ops \<Rightarrow> ('q, 'f) canvas_ops \<Rightarrow> 'q sfnt_Font \<Rightarrow> 'f FontFace \<Rightarrow> rune \<Rightarrow> bool" where
  "lookup_fails fo cv sf ff r =
     (snd (GlyphIndex sf r) \<noteq> None
      \<or> snd (LoadGlyph sf (fst (GlyphIndex sf r)) (toI26_6 cv (fmul fo (Size ff) (Scale ff))))
           \<noteq> None)"

section \<open>Inputs of the examples\<close>

text \<open>
  Three fonts with one contour table for every glyph, at one unit per em: a contour of
  one on-curve point followed by a contour without points; a contour of two off-curve
  points and one on-curve point; a contour of one on-curve point at the origin.
\<close>

definition point_font :: "int SFNT" where
  "point_font = \<lparr>IsTrueType = True, Head_UnitsPerEm = 1,
     GlyphContour = (\<lambda>g. (Some \<lparr>EndPoints = [0, 0], OnCurve = [True],
        XCoordinates = [3], YCoordinates = [5]\<rparr>, None))\<rparr>"

definition two_off_font :: "int SFNT" where
  "two_off_font = \<lparr>IsTrueType = True, Head_UnitsPerEm = 1,
     GlyphContour = (\<lambda>g. (Some \<lparr>EndPoints = [2], OnCurve = [False, False, True],
        XCoordinates = [0, 2, 4], YCoordinates = [0, 0, 4]\<rparr>, None))\<rparr>"

definition dot_font :: "int SFNT" where
  "dot_font = \<lparr>IsTrueType = True, Head_UnitsPerEm = 1,
     GlyphContour = (\<lambda>g. (Some \<lparr>EndPoints = [0], OnCurve = [True],
        XCoordinates = [0], YCoordinates = [0]\<rparr>, None))\<rparr>"

text \<open>
  A font whose glyphs have two contours, the second of on-curve points only, and a font
  whose glyphs have one contour of 65536 on-curve points, with the end index 65535.
\<close>

definition two_contour_font :: "int SFNT" where
  "two_contour_font = \<lparr>IsTrueType = True, Head_UnitsPerEm = 1,
     GlyphContour = (\<lambda>g. (Some \<lparr>EndPoints = [2, 4],
        OnCurve = [True, False, True, True, True],
        XCoordinates = [0, 4, 4, 1, 2], YCoordinates = [0, 0, 3, 1, 1]\<rparr>, None))\<rparr>"

definition full_font :: "int SFNT" where
  "full_font = \<lparr>IsTrueType = True, Head_UnitsPerEm = 1,
     GlyphContour = (\<lambda>g. (Some \<lparr>EndPoints = [0xFFFF], OnCurve = replicate 65536 True,
        XCoordinates = replicate 65536 0, YCoordinates = replicate 65536 0\<rparr>, None))\<rparr>"

text \<open>A face, the fixed-point helpers over the integers, and a font with one glyph.\<close>

definition regular_face :: "rat FontFace" where
  "regular_face = \<lparr>family = 1, Font = 2, Size = 12, Style = 0, Variant = 2,
     Color = (0, 0, 0, 255), deco = Some [FontUnderline], Scale = 1, Voffset = 0,
     FauxBold = 0, FauxItalic = 0\<rparr>"

text \<open>
  A face for \<open>Equals\<close>, with its \<open>float64\<close> fields as bit patterns: the size 12.0 is
  \<open>0x4028000000000000\<close> and the scale 1.0 is \<open>0x3FF0000000000000\<close>.
\<close>

definition plain_face :: "float64 FontFace" where
  "plain_face = \<lparr>family = 1, Font = 2, Size = 0x4028000000000000, Style = 0, Variant = 2,
     Color = (0, 0, 0, 255), deco = Some [FontUnderline], Scale = 0x3FF0000000000000,
     Voffset = 0, FauxBold = 0, FauxItalic = 0\<rparr>"

definition fixed_ops :: "(int, rat) canvas_ops" where
  "fixed_ops = \<lparr>toI26_6 = (\<lambda>f. \<lfloor>f * 64\<rfloor>), fromI26_6 = (\<lambda>q. of_int q / 64),
     fromP26_6 = (\<lambda>(a, b). (of_int a / 64, of_int b / 64)),
     Point_Equals = (=), Path_Offset = (\<lambda>w p. p)\<rparr>"

definition one_glyph_font :: "int sfnt_Font" where
  "one_glyph_font = \<lparr>
     GlyphIndex = (\<lambda>r. if r = 0x61 then (1, None) else (0, Some ''missing glyph'')),
     LoadGlyph = (\<lambda>g ppem.
       ([\<lparr>Op = SegmentOpMoveTo, Args = ((0, 0), (0, 0), (0, 0))\<rparr>,
         \<lparr>Op = SegmentOpLineTo, Args = ((64, 0), (0, 0), (0, 0))\<rparr>,
         \<lparr>Op = SegmentOpLineTo, Args = ((64, 64), (0, 0), (0, 0))\<rparr>], None)),
     Kern = (\<lambda>a b ppem. (0, None)),
     GlyphAdvance = (\<lambda>g ppem. (128, None))\<rparr>"

section \<open>Properties of \<open>GlyphPath\<close>\<close>

declare GlyphPath_points.simps [code]
declare substituteTypography_loop.simps [code]
declare range_string_from.simps [simp del]

lemma seq_simps [simp]:
  "seq (Inl e) k = Inl e"
  "seq (Inr v) k = k v"
  by (simp_all add: seq_def)

lemma at_index_in_range [simp]: "k < length xs \<Longrightarrow> at_index xs k = Inr (xs ! k)"
  by (simp add: at_index_def)

lemmas GlyphPath_eval =
  GlyphPath_def GlyphPath_contour_def GlyphPath_points.simps GlyphPath_point_def
  GlyphPath_close_def scaled_point_def scaled_midpoint_def at_index_def StartPos_def
  exact_ops_def exact_coords_def

text \<open>
  C3: on a font whose outlines are not TrueType, \<open>GlyphPath\<close> returns, for every glyph
  identifier, size and origin, the error "CFF not supported" together with the nil path.
\<close>

theorem GlyphPath_CFF_unsupported:
  "\<not> IsTrueType sfnt \<Longrightarrow>
     GlyphPath fo co sfnt glyphID sz x y = Some (Inr (None, Some ''CFF not supported''))"
  by (simp add: GlyphPath_def)

theorem GlyphPath_CFF_unsupported_witness:
  "\<not> IsTrueType \<lparr>IsTrueType = False, Head_UnitsPerEm = 1000,
        GlyphContour = (\<lambda>g. (None :: int glyfContour option, None))\<rparr>
   \<and> GlyphPath exact_ops exact_coords
        \<lparr>IsTrueType = False, Head_UnitsPerEm = 1000, GlyphContour = (\<lambda>g. (None, None))\<rparr>
        7 12 0 0
      = Some (Inr (None, Some ''CFF not supported''))"
  using GlyphPath_CFF_unsupported [of "\<lparr>IsTrueType = False, Head_UnitsPerEm = 1000,
        GlyphContour = (\<lambda>g. (None :: int glyfContour option, None))\<rparr>" exact_ops exact_coords 7 12 0 0]
  by simp

text \<open>
  C1: a contour that begins with two off-curve points should start at, and be closed back
  to, the midpoint of the two. The branch of the loop that moves to this midpoint leaves
  \<open>first\<close> set, so the third point is handled as a first point again. On the contour of
  the points \<open>(0,0)\<close> off, \<open>(2,0)\<close> off, \<open>(4,4)\<close> on, at size 1 with one unit per em and
  the origin \<open>(0,0)\<close>, \<open>GlyphPath\<close> moves to the midpoint \<open>(1,0)\<close>, then moves again to
  the third point \<open>(4,4)\<close>, and closes the contour back to \<open>(4,4)\<close>: the start anchor of the
  sub-path is the third point, and the midpoint of the first two points is \<open>(1,0)\<close>.
\<close>

theorem GlyphPath_two_off_curve_start:
  "GlyphPath exact_ops exact_coords two_off_font 0 1 0 0
     = Some (Inr (Some [MoveTo 1 0, MoveTo 4 4, QuadTo 2 2 4 4, Close], None))
   \<and> StartPos exact_ops [MoveTo 1 0, MoveTo 4 4, QuadTo 2 2 4 4, Close] = (4, 4)
   \<and> scaled_midpoint exact_ops exact_coords \<lparr>EndPoints = [2], OnCurve = [False, False, True],
        XCoordinates = [0, 2, 4], YCoordinates = [0, 0, 4]\<rparr> 1 0 0 0 1 = Inr (1, 0)"
  by (simp add: two_off_font_def GlyphPath_eval)

subsection \<open>The inner loop\<close>

lemma scaled_point_in_range:
  "unat i < length (XCoordinates c) \<Longrightarrow> unat i < length (YCoordinates c) \<Longrightarrow>
     scaled_point fo co c f x y i = Inr (point_at fo co c f x y (unat i))"
  by (simp add: scaled_point_def point_at_def)

lemma points_exit:
  "\<not> i \<le> e \<Longrightarrow> GlyphPath_points fo co c f x y e i st = Some (Inr (i, st))"
  by (subst GlyphPath_points.simps) simp

lemma points_step:
  "i \<le> e \<Longrightarrow> GlyphPath_point fo co c f x y i st = Inr st' \<Longrightarrow>
     GlyphPath_points fo co c f x y e i st = GlyphPath_points fo co c f x y e (i + 1) st'"
  by (subst GlyphPath_points.simps) simp

lemma unat_succ: "unat (i :: 16 word) < 65535 \<Longrightarrow> unat (i + 1) = unat i + 1"
  by (simp add: unat_word_ariths)

text \<open>
  A run of on-curve points, met with no control point pending, adds one \<open>LineTo\<close> for
  each point. The end index is below 65535, so that \<open>i++\<close> does not wrap around.
\<close>

lemma points_on_run:
  assumes "unat e < 65535"
    and "unat e < length (OnCurve c)" "unat e < length (XCoordinates c)"
      "unat e < length (YCoordinates c)"
    and "\<forall>k. unat i \<le> k \<and> k \<le> unat e \<longrightarrow> OnCurve c ! k"
    and "unat i \<le> unat e + 1"
  shows "GlyphPath_points fo co c f x y e i (p, False, b, False)
           = Some (Inr (e + 1,
               p @ map (line_to_point fo co c f x y) [unat i ..< unat e + 1], False, b, False))"
  using assms(5,6)
proof (induction "unat e + 1 - unat i" arbitrary: i p)
  case 0
  then have eq: "unat i = unat e + 1" by simp
  then have "unat i = unat (e + 1)" using assms(1) by (simp add: unat_succ)
  then have ie: "i = e + 1" by (simp add: word_unat_eq_iff)
  have "\<not> i \<le> e" using eq by (simp add: word_le_nat_alt)
  then show ?case using eq ie by (simp add: points_exit)
next
  case (Suc n)
  then have le: "unat i \<le> unat e" by simp
  then have ile: "i \<le> e" by (simp add: word_le_nat_alt)
  have on: "OnCurve c ! unat i" using Suc.prems(1) le by simp
  have rng: "unat i < length (OnCurve c)" "unat i < length (XCoordinates c)"
    "unat i < length (YCoordinates c)" using le assms(2-4) by simp_all
  have st: "GlyphPath_point fo co c f x y i (p, False, b, False)
              = Inr (p @ [line_to_point fo co c f x y (unat i)], False, b, False)"
    using on rng
    by (simp add: GlyphPath_point_def scaled_point_in_range line_to_point_def split_beta)
  have s1: "unat (i + 1) = unat i + 1" using le assms(1) by (simp add: unat_succ)
  have m: "n = unat e + 1 - unat (i + 1)" using Suc.hyps(2) s1 by simp
  have all: "\<forall>k. unat (i + 1) \<le> k \<and> k \<le> unat e \<longrightarrow> OnCurve c ! k"
    using Suc.prems(1) s1 by simp
  have b2: "unat (i + 1) \<le> unat e + 1" using s1 le by simp
  have up: "[unat i ..< unat e + 1] = unat i # [unat (i + 1) ..< unat e + 1]"
    using le s1 by (simp add: upt_conv_Cons)
  show ?case
    unfolding points_step [OF ile st] Suc.hyps(1) [OF m all b2] up by simp
qed

subsection \<open>The contours of a glyph\<close>

lemma contour_zero_points:
  "e < i \<Longrightarrow> GlyphPath_contour fo co c f x y (p, i) e = Some (Inr (p @ [Close], i))"
  by (simp add: GlyphPath_contour_def points_exit GlyphPath_close_def not_le)

lemma contours_append:
  "GlyphPath_contours fo co c f x y st (es1 @ es2) =
     (case GlyphPath_contours fo co c f x y st es1 of
        None \<Rightarrow> None
      | Some (Inl pn) \<Rightarrow> Some (Inl pn)
      | Some (Inr st') \<Rightarrow> GlyphPath_contours fo co c f x y st' es2)"
  by (induction es1 arbitrary: st) (auto split: option.splits sum.splits)

text \<open>Every operation of \<open>GlyphPath\<close> on the path appends to it.\<close>

lemma point_extends:
  "GlyphPath_point fo co c f x y i (p, fl) = Inr (p', fl') \<Longrightarrow> \<exists>ops. p' = p @ ops"
  by (cases fl) (auto simp: GlyphPath_point_def seq_def split: sum.splits if_splits prod.splits)

lemmas points_induct [consumes 1, case_names step] =
  GlyphPath_points.raw_induct
    [where xa = "((((((((fo, co), c), f), x), y), e), i), st)" and ya = r, simplified, rotated]
  for fo co c f x y e i st r

lemma points_extend:
  "GlyphPath_points fo co c f x y e i st = Some r \<Longrightarrow>
     \<forall>i' p' fl'. r = Inr (i', p', fl') \<longrightarrow> (\<exists>ops. p' = fst st @ ops)"
proof (induction fo co c f x y e i st r rule: points_induct)
  case (step g fo co c f x y endPoint i st r)
  show ?case
  proof (cases "i \<le> endPoint")
    case False
    then show ?thesis using step(2) by auto
  next
    case True
    show ?thesis
    proof (cases "GlyphPath_point fo co c f x y i st")
      case (Inl pn)
      then show ?thesis using step(2) True by auto
    next
      case (Inr st')
      obtain p fl where st: "st = (p, fl)" by (cases st)
      obtain q fl2 where st': "st' = (q, fl2)" by (cases st')
      have "GlyphPath_point fo co c f x y i (p, fl) = Inr (q, fl2)"
        using Inr st st' by simp
      from point_extends [OF this] obtain ops1 where q: "q = p @ ops1" ..
      have "g fo co c f x y endPoint (i + 1) st' = Some r"
        using step(2) True Inr by simp
      from step(1) [OF this] show ?thesis using q st st' by auto
    qed
  qed
qed

text \<open>
  With the end index 65535 the test \<open>i <= endPoint\<close> holds of every \<open>uint16\<close>: the inner
  loop is left by a panic or not at all.
\<close>

lemma points_never_pass_65535:
  "GlyphPath_points fo co c f x y e i st = Some r \<Longrightarrow> e = 0xFFFF \<longrightarrow> (\<exists>pn. r = Inl pn)"
proof (induction fo co c f x y e i st r rule: points_induct)
  case (step g fo co c f x y endPoint i st r)
  show ?case
  proof
    assume e: "endPoint = 0xFFFF"
    have "unat i < 2 ^ 16" using unsigned_less [of i, where 'a = nat] by simp
    then have le: "i \<le> endPoint" unfolding e by (simp add: word_le_nat_alt)
    show "\<exists>pn. r = Inl pn"
    proof (cases "GlyphPath_point fo co c f x y i st")
      case (Inl pn)
      then show ?thesis using step(2) le by auto
    next
      case (Inr st')
      have "g fo co c f x y endPoint (i + 1) st' = Some r"
        using step(2) le Inr by simp
      from step(1) [OF this] e show ?thesis by simp
    qed
  qed
qed

lemma at_index_uint16:
  assumes "65536 \<le> length xs"
  shows "at_index xs (unat (i :: 16 word)) = Inr (xs ! unat i)"
proof -
  have "unat i < 2 ^ 16" using unsigned_less [of i, where 'a = nat] by simp
  then show ?thesis using assms by (simp add: at_index_def)
qed

lemma point_no_panic:
  assumes "65536 \<le> length (OnCurve c)" "65536 \<le> length (XCoordinates c)"
    "65536 \<le> length (YCoordinates c)"
  shows "\<exists>st'. GlyphPath_point fo co c f x y i st = Inr st'"
proof -
  obtain p a b d where st: "st = (p, a, b, d)" by (cases st) auto
  show ?thesis
    unfolding st
    by (auto simp: GlyphPath_point_def scaled_point_def scaled_midpoint_def
        at_index_uint16 [OF assms(1)] at_index_uint16 [OF assms(2)]
        at_index_uint16 [OF assms(3)]
        simp del: at_index_in_range)
qed

text \<open>
  With the end index 65535 and arrays that hold 65536 points no index of the inner loop
  is out of range either: the loop is never left.
\<close>

lemma points_never_return:
  "GlyphPath_points fo co c f x y e i st = Some r \<Longrightarrow>
     \<not> (e = 0xFFFF \<and> 65536 \<le> length (OnCurve c) \<and> 65536 \<le> length (XCoordinates c)
        \<and> 65536 \<le> length (YCoordinates c))"
proof (induction fo co c f x y e i st r rule: points_induct)
  case (step g fo co c f x y endPoint i st r)
  show ?case
  proof
    assume h: "endPoint = 0xFFFF \<and> 65536 \<le> length (OnCurve c)
        \<and> 65536 \<le> length (XCoordinates c) \<and> 65536 \<le> length (YCoordinates c)"
    have "unat i < 2 ^ 16" using unsigned_less [of i, where 'a = nat] by simp
    then have le: "i \<le> endPoint" using h by (simp add: word_le_nat_alt)
    from point_no_panic [of c fo co f x y i st] h obtain st' where
      pt: "GlyphPath_point fo co c f x y i st = Inr st'" by blast
    have "g fo co c f x y endPoint (i + 1) st' = Some r"
      using step(2) le pt by simp
    from step(1) [OF this] h show False by simp
  qed
qed

lemma points_diverge:
  assumes "65536 \<le> length (OnCurve c)" "65536 \<le> length (XCoordinates c)"
    "65536 \<le> length (YCoordinates c)"
  shows "GlyphPath_points fo co c f x y 0xFFFF i st = None"
proof (cases "GlyphPath_points fo co c f x y 0xFFFF i st")
  case None
  then show ?thesis .
next
  case (Some r)
  from points_never_return [OF Some] assms show ?thesis by simp
qed

lemma close_extends:
  "GlyphPath_close fo co c f x y j i (p, fl) = Inr p' \<Longrightarrow> \<exists>ops. p' = p @ ops"
  by (cases fl)
    (auto simp: GlyphPath_close_def Let_def seq_def split: sum.splits if_splits prod.splits)

lemma contour_extends:
  assumes "GlyphPath_contour fo co c f x y (p, i) e = Some (Inr (p', i'))"
  shows "\<exists>ops. p' = p @ ops"
proof -
  from assms obtain i2 q fl where
    pts: "GlyphPath_points fo co c f x y e i (p, True, False, False) = Some (Inr (i2, q, fl))"
    and cl: "GlyphPath_close fo co c f x y i i2 (q, fl) = Inr p'"
    by (auto simp: GlyphPath_contour_def split: option.splits sum.splits prod.splits)
  from points_extend [OF pts]
  have "\<exists>ops. q = fst (p, True, False, False) @ ops" by blast
  then obtain ops1 where "q = p @ ops1" by auto
  moreover from close_extends [OF cl] obtain ops2 where "p' = q @ ops2" ..
  ultimately show ?thesis by simp
qed

lemma contours_extend:
  "GlyphPath_contours fo co c f x y (p, i) es = Some (Inr (p', i')) \<Longrightarrow> \<exists>ops. p' = p @ ops"
proof (induction es arbitrary: p i)
  case Nil
  then show ?case by simp
next
  case (Cons e es)
  from Cons.prems obtain q i2 where
    c1: "GlyphPath_contour fo co c f x y (p, i) e = Some (Inr (q, i2))"
    and c2: "GlyphPath_contours fo co c f x y (q, i2) es = Some (Inr (p', i'))"
    by (auto split: option.splits sum.splits)
  from contour_extends [OF c1] obtain ops1 where "q = p @ ops1" ..
  moreover from Cons.IH [OF c2] obtain ops2 where "p' = q @ ops2" ..
  ultimately show ?case by simp
qed

subsection \<open>Contours of on-curve points\<close>

lemma contour_on_curve:
  assumes "j \<le> e" and "unat e < 65535"
    and "unat e < length (OnCurve c)" "unat e < length (XCoordinates c)"
      "unat e < length (YCoordinates c)"
    and "\<forall>k. unat j \<le> k \<and> k \<le> unat e \<longrightarrow> OnCurve c ! k"
  shows "GlyphPath_contour fo co c f x y (p, j) e
           = Some (Inr (p @ on_curve_ops fo co c f x y j e, e + 1))"
proof -
  have le: "unat j \<le> unat e" using assms(1) by (simp add: word_le_nat_alt)
  have on: "OnCurve c ! unat j" using assms(6) le by simp
  have rng: "unat j < length (OnCurve c)" "unat j < length (XCoordinates c)"
    "unat j < length (YCoordinates c)" using le assms(3-5) by simp_all
  have st: "GlyphPath_point fo co c f x y j (p, True, False, False)
              = Inr (p @ [move_to_point fo co c f x y (unat j)], False, False, False)"
    using on rng
    by (simp add: GlyphPath_point_def scaled_point_in_range move_to_point_def split_beta)
  have s1: "unat (j + 1) = unat j + 1" using le assms(2) by (simp add: unat_succ)
  have all: "\<forall>k. unat (j + 1) \<le> k \<and> k \<le> unat e \<longrightarrow> OnCurve c ! k"
    using assms(6) s1 by simp
  have b2: "unat (j + 1) \<le> unat e + 1" using s1 le by simp
  have pts: "GlyphPath_points fo co c f x y e j (p, True, False, False)
      = Some (Inr (e + 1, (p @ [move_to_point fo co c f x y (unat j)])
                  @ map (line_to_point fo co c f x y) [unat j + 1 ..< unat e + 1],
                False, False, False))"
    unfolding points_step [OF assms(1) st]
      points_on_run [OF assms(2-5) all b2] s1 by simp
  show ?thesis
    unfolding on_curve_ops_def
    by (simp add: GlyphPath_contour_def pts GlyphPath_close_def)
qed

lemma on_curve_ops_shape:
  assumes "unat j \<le> unat e"
  shows "(\<forall>cmd \<in> set (on_curve_ops fo co c f x y j e). \<not> is_curve cmd)
   \<and> length (filter is_straight (on_curve_ops fo co c f x y j e)) = unat e + 1 - unat j
   \<and> last (on_curve_ops fo co c f x y j e) = Close"
proof -
  have flt: "filter is_straight (map (line_to_point fo co c f x y) xs)
               = map (line_to_point fo co c f x y) xs" for xs
    by (induction xs) (simp_all add: line_to_point_def)
  show ?thesis
    using assms
    by (auto simp: on_curve_ops_def move_to_point_def line_to_point_def
        flt [unfolded line_to_point_def])
qed




subsection \<open>Contours without points\<close>

text \<open>
  C2, as the code has it. \<open>GlyphPath\<close> has no check of the number of points of a contour.
  When the contours before it have left the path \<open>p1\<close> and the point counter \<open>i1\<close>, a
  contour whose end index \<open>e\<close> is below \<open>i1\<close> has no point: its round reads no point,
  reports no error and appends the single operation \<open>Close\<close>, and \<open>GlyphPath\<close> goes on
  with the contours that follow. Whenever \<open>GlyphPath\<close> returns, it returns the nil error
  and a path that begins with \<open>p1\<close>, unchanged, followed by that \<open>Close\<close>.
\<close>

theorem GlyphPath_zero_point_contour:
  assumes tt: "IsTrueType sfnt"
    and gc: "GlyphContour sfnt glyphID = (Some c, None)"
    and es: "EndPoints c = es1 @ e # es2"
    and f: "f = fdiv fo sz (ffrom_int fo (Head_UnitsPerEm sfnt))"
    and before: "GlyphPath_contours fo co c f x y ([], 0) es1 = Some (Inr (p1, i1))"
    and empty: "e < i1"
  shows "GlyphPath_contour fo co c f x y (p1, i1) e = Some (Inr (p1 @ [Close], i1))
    \<and> GlyphPath fo co sfnt glyphID sz x y =
        (case GlyphPath_contours fo co c f x y (p1 @ [Close], i1) es2 of
           None \<Rightarrow> None
         | Some (Inl pn) \<Rightarrow> Some (Inl pn)
         | Some (Inr (p, i)) \<Rightarrow> Some (Inr (Some p, None)))
    \<and> (\<forall>po err. GlyphPath fo co sfnt glyphID sz x y = Some (Inr (po, err)) \<longrightarrow>
          err = None \<and> (\<exists>ops. po = Some (p1 @ Close # ops)))"
proof -
  have z: "GlyphPath_contour fo co c f x y (p1, i1) e = Some (Inr (p1 @ [Close], i1))"
    by (rule contour_zero_points [OF empty])
  have all: "GlyphPath_contours fo co c f x y ([], 0) (EndPoints c)
               = GlyphPath_contours fo co c f x y (p1 @ [Close], i1) es2"
    unfolding es by (simp add: contours_append before z)
  have g: "GlyphPath fo co sfnt glyphID sz x y =
        (case GlyphPath_contours fo co c f x y (p1 @ [Close], i1) es2 of
           None \<Rightarrow> None
         | Some (Inl pn) \<Rightarrow> Some (Inl pn)
         | Some (Inr (p, i)) \<Rightarrow> Some (Inr (Some p, None)))"
    using tt gc all f by (simp add: GlyphPath_def)
  have "err = None \<and> (\<exists>ops. po = Some (p1 @ Close # ops))"
    if r: "GlyphPath fo co sfnt glyphID sz x y = Some (Inr (po, err))" for po err
  proof -
    from r g obtain p i where
      c: "GlyphPath_contours fo co c f x y (p1 @ [Close], i1) es2 = Some (Inr (p, i))"
      and po: "po = Some p" "err = None"
      by (auto split: option.splits sum.splits)
    from contours_extend [OF c] obtain ops where "p = (p1 @ [Close]) @ ops" ..
    then show ?thesis using po by simp
  qed
  with z g show ?thesis by blast
qed

theorem GlyphPath_zero_point_contour_witness:
  "IsTrueType point_font
   \<and> GlyphContour point_font 0 = (Some \<lparr>EndPoints = [0, 0], OnCurve = [True],
        XCoordinates = [3], YCoordinates = [5]\<rparr>, None)
   \<and> GlyphPath_contours exact_ops exact_coords \<lparr>EndPoints = [0, 0], OnCurve = [True],
        XCoordinates = [3], YCoordinates = [5]\<rparr> 1 0 0 ([], 0) [0]
        = Some (Inr ([MoveTo 3 5, Close], 1))
   \<and> (0 :: 16 word) < 1
   \<and> GlyphPath exact_ops exact_coords point_font 0 1 0 0
        = Some (Inr (Some ([MoveTo 3 5, Close] @ [Close]), None))"
proof -
  let ?c = "\<lparr>EndPoints = [0, 0], OnCurve = [True], XCoordinates = [3::int],
    YCoordinates = [5]\<rparr>"
  have tt: "IsTrueType point_font" by (simp add: point_font_def)
  have gc: "GlyphContour point_font 0 = (Some ?c, None)" by (simp add: point_font_def)
  have es: "EndPoints ?c = [0] @ 0 # []" by simp
  have f: "(1::rat) = fdiv exact_ops 1 (ffrom_int exact_ops (Head_UnitsPerEm point_font))"
    by (simp add: point_font_def exact_ops_def)
  have before: "GlyphPath_contours exact_ops exact_coords ?c 1 0 0 ([], 0) [0]
        = Some (Inr ([MoveTo 3 5, Close], 1))"
    by (simp add: GlyphPath_eval)
  have empty: "(0 :: 16 word) < 1" by simp
  from GlyphPath_zero_point_contour [OF tt gc es f before empty]
  have "GlyphPath exact_ops exact_coords point_font 0 1 0 0
        = Some (Inr (Some ([MoveTo 3 5, Close] @ [Close]), None))"
    by simp
  with tt gc before empty show ?thesis by blast
qed

text \<open>
  C2, as the claim states it, fails: the glyph of \<open>point_font\<close> has a contour of one point
  and then a contour without points (the end index 0 twice). \<open>GlyphPath\<close> returns the
  nil error, and the path holds a second \<open>Close\<close> after the sub-path of the first contour.
\<close>

theorem GlyphPath_zero_point_contour_counterexample:
  "GlyphPath exact_ops exact_coords point_font 0 1 0 0
     = Some (Inr (Some [MoveTo 3 5, Close, Close], None))"
  by (simp add: point_font_def GlyphPath_eval)

section \<open>Properties of \<open>StringPath\<close>\<close>

lemma StringPath_glyph_pen:
  "StringPath_glyph fo co sfnt sz f (p0, x0, y0) g = Some (Inr ((p, x, y), None)) \<Longrightarrow>
     x = x0 + XAdvance g"
  by (auto simp: StringPath_glyph_def split: option.splits sum.splits if_splits)

lemma StringPath_loop_pen:
  "StringPath_loop fo co sfnt sz f (p0, x0, y0) glyphs = Some (Inr ((p, x, y), None)) \<Longrightarrow>
     x = x0 + sum_list (map XAdvance glyphs)"
proof (induction glyphs arbitrary: p0 x0 y0)
  case Nil
  then show ?case by simp
next
  case (Cons g gs)
  from Cons.prems obtain p1 x1 y1 where
    s1: "StringPath_glyph fo co sfnt sz f (p0, x0, y0) g = Some (Inr ((p1, x1, y1), None))"
    and s2: "StringPath_loop fo co sfnt sz f (p1, x1, y1) gs = Some (Inr ((p, x, y), None))"
    by (auto split: option.splits sum.splits if_splits)
  show ?case
    using StringPath_glyph_pen [OF s1] Cons.IH [OF s2] by (simp add: add.assoc)
qed

lemma signed_take_bit_add_right:
  "signed_take_bit n (a + signed_take_bit n b) = signed_take_bit n (a + b)" for a b :: int
proof -
  have "signed_take_bit n (a + signed_take_bit n b)
          = signed_take_bit n (signed_take_bit n a + signed_take_bit n (signed_take_bit n b))"
    by (simp only: signed_take_bit_add)
  also have "\<dots> = signed_take_bit n (signed_take_bit n a + signed_take_bit n b)"
    by simp
  also have "\<dots> = signed_take_bit n (a + b)"
    by (simp only: signed_take_bit_add)
  finally show ?thesis .
qed

lemma sint_sum_list:
  "sint (sum_list ws :: 32 word) = signed_take_bit 31 (\<Sum>w\<leftarrow>ws. sint w)"
proof (induction ws)
  case Nil
  then show ?case by simp
next
  case (Cons w ws)
  have "sint (w + sum_list ws) = signed_take_bit 31 (sint w + sint (sum_list ws))"
    by (simp add: sint_word_ariths)
  also have "\<dots> = signed_take_bit 31 (sint w + (\<Sum>w\<leftarrow>ws. sint w))"
    unfolding Cons.IH by (rule signed_take_bit_add_right)
  finally show ?case by simp
qed

lemmas StringPath_eval = StringPath_glyph_def dot_font_def Append_def GlyphPath_eval

lemma StringPath_glyph_pen_y:
  "StringPath_glyph fo co sfnt sz f (p0, x0, y0) g = Some (Inr ((p, x, y), None)) \<Longrightarrow>
     y = y0 + YAdvance g"
  by (auto simp: StringPath_glyph_def split: option.splits sum.splits if_splits)

lemma StringPath_loop_pen_y:
  "StringPath_loop fo co sfnt sz f (p0, x0, y0) glyphs = Some (Inr ((p, x, y), None)) \<Longrightarrow>
     y = y0 + sum_list (map YAdvance glyphs)"
proof (induction glyphs arbitrary: p0 x0 y0)
  case Nil
  then show ?case by simp
next
  case (Cons g gs)
  from Cons.prems obtain p1 x1 y1 where
    s1: "StringPath_glyph fo co sfnt sz f (p0, x0, y0) g = Some (Inr ((p1, x1, y1), None))"
    and s2: "StringPath_loop fo co sfnt sz f (p1, x1, y1) gs = Some (Inr ((p, x, y), None))"
    by (auto split: option.splits sum.splits if_splits)
  show ?case
    using StringPath_glyph_pen_y [OF s1] Cons.IH [OF s2] by (simp add: add.assoc)
qed

lemma StringPath_loop_append:
  "StringPath_loop fo co sfnt sz f st (pre @ rest) =
     (case StringPath_loop fo co sfnt sz f st pre of
        None \<Rightarrow> None
      | Some (Inl pn) \<Rightarrow> Some (Inl pn)
      | Some (Inr (st', err)) \<Rightarrow>
          if err \<noteq> None then Some (Inr (st', err))
          else StringPath_loop fo co sfnt sz f st' rest)"
  by (induction pre arbitrary: st) (auto split: option.splits sum.splits)

lemma StringPath_loop_split:
  assumes "StringPath_loop fo co sfnt sz f ([], 0, 0) (pre @ g # post)
             = Some (Inr ((p, x, y), None))"
  shows "\<exists>p1 path.
       StringPath_loop fo co sfnt sz f ([], 0, 0) pre
         = Some (Inr ((p1, sum_list (map XAdvance pre), sum_list (map YAdvance pre)), None))
     \<and> GlyphPath fo co sfnt (ID g) sz (fst (glyph_position fo f pre g))
          (snd (glyph_position fo f pre g)) = Some (Inr (path, None))
     \<and> StringPath_loop fo co sfnt sz f ([], 0, 0) (pre @ [g])
         = Some (Inr (((case path of Some q \<Rightarrow> Append p1 q | None \<Rightarrow> p1),
              sum_list (map XAdvance pre) + XAdvance g,
              sum_list (map YAdvance pre) + YAdvance g), None))"
proof -
  from assms obtain p1 x1 y1 where
    l1: "StringPath_loop fo co sfnt sz f ([], 0, 0) pre = Some (Inr ((p1, x1, y1), None))"
    and l2: "StringPath_loop fo co sfnt sz f (p1, x1, y1) (g # post)
               = Some (Inr ((p, x, y), None))"
    by (auto simp: StringPath_loop_append split: option.splits sum.splits if_splits)
  have x1: "x1 = sum_list (map XAdvance pre)"
    using StringPath_loop_pen [OF l1] by simp
  have y1: "y1 = sum_list (map YAdvance pre)"
    using StringPath_loop_pen_y [OF l1] by simp
  from l2 obtain st2 where
    g1: "StringPath_glyph fo co sfnt sz f (p1, x1, y1) g = Some (Inr (st2, None))"
    by (auto split: option.splits sum.splits if_splits)
  then obtain path where
    gp: "GlyphPath fo co sfnt (ID g) sz
           (fmul fo (ffrom_int fo (sint (x1 + XOffset g))) f)
           (fmul fo (ffrom_int fo (sint (y1 + YOffset g))) f) = Some (Inr (path, None))"
    and st2: "st2 = ((case path of Some q \<Rightarrow> Append p1 q | None \<Rightarrow> p1),
                     x1 + XAdvance g, y1 + YAdvance g)"
    by (auto simp: StringPath_glyph_def split: option.splits sum.splits if_splits)
  have l3: "StringPath_loop fo co sfnt sz f ([], 0, 0) (pre @ [g]) = Some (Inr (st2, None))"
    using l1 g1 by (simp add: StringPath_loop_append)
  show ?thesis
    using l1 gp l3 unfolding st2 x1 y1 glyph_position_def by auto
qed

text \<open>
  C4, as the code has it. Let the loop of \<open>StringPath\<close> go through the whole run with no
  error. The pen \<open>x\<close> is then the sum of the x-advances of the glyphs, added up in
  \<open>int32\<close>: it is their sum as integers whenever that sum is an \<open>int32\<close>, and the sum
  wrapped around otherwise. The offsets are no part of the pen. For every glyph \<open>g\<close> of the
  run, with the glyphs \<open>pre\<close> before it: the loop reaches \<open>g\<close> with the pen at the sums of
  the advances of \<open>pre\<close>; \<open>GlyphPath\<close> returns with no error for \<open>g\<close> at the position
  made of these sums and the offsets of \<open>g\<close> alone; and the loop goes on from \<open>g\<close> with
  the path of that call appended and the pen moved by the advances of \<open>g\<close> alone. When
  the run is what the shaping returns and \<open>f\<close> is the scale of \<open>StringPath\<close>, the path
  that the loop has built is what \<open>StringPath\<close> returns, with the nil error.
\<close>

theorem StringPath_pen_is_sum_of_advances:
  assumes "StringPath_loop fo co sfnt sz f ([], 0, 0) glyphs = Some (Inr ((p, x, y), None))"
  shows "x = sum_list (map XAdvance glyphs)
    \<and> (- (2 ^ 31) \<le> (\<Sum>g\<leftarrow>glyphs. sint (XAdvance g))
         \<and> (\<Sum>g\<leftarrow>glyphs. sint (XAdvance g)) < 2 ^ 31
         \<longrightarrow> sint x = (\<Sum>g\<leftarrow>glyphs. sint (XAdvance g)))
    \<and> (\<forall>pre g post. glyphs = pre @ g # post \<longrightarrow>
         (\<exists>p1 path.
            StringPath_loop fo co sfnt sz f ([], 0, 0) pre
              = Some (Inr ((p1, sum_list (map XAdvance pre), sum_list (map YAdvance pre)),
                   None))
          \<and> GlyphPath fo co sfnt (ID g) sz (fst (glyph_position fo f pre g))
               (snd (glyph_position fo f pre g)) = Some (Inr (path, None))
          \<and> StringPath_loop fo co sfnt sz f ([], 0, 0) (pre @ [g])
              = Some (Inr (((case path of Some q \<Rightarrow> Append p1 q | None \<Rightarrow> p1),
                   sum_list (map XAdvance pre) + XAdvance g,
                   sum_list (map YAdvance pre) + YAdvance g), None))))
    \<and> (\<forall>Shape text. Shape text sz = glyphs
           \<and> f = fdiv fo sz (ffrom_int fo (Head_UnitsPerEm sfnt)) \<longrightarrow>
         StringPath fo co sfnt (Inr Shape) text sz = Some (Inr (Some p, None)))"
proof -
  have x: "x = sum_list (map XAdvance glyphs)"
    using StringPath_loop_pen [OF assms] by simp
  have "sint x = (\<Sum>g\<leftarrow>glyphs. sint (XAdvance g))"
    if "- (2 ^ 31) \<le> (\<Sum>g\<leftarrow>glyphs. sint (XAdvance g))"
      "(\<Sum>g\<leftarrow>glyphs. sint (XAdvance g)) < 2 ^ 31"
  proof -
    have "sint x = signed_take_bit 31 (\<Sum>w\<leftarrow>map XAdvance glyphs. sint w)"
      unfolding x by (rule sint_sum_list)
    also have "(\<Sum>w\<leftarrow>map XAdvance glyphs. sint w) = (\<Sum>g\<leftarrow>glyphs. sint (XAdvance g))"
      by (simp add: comp_def)
    also have "signed_take_bit 31 \<dots> = \<dots>"
      using that by (simp add: signed_take_bit_int_eq_self)
    finally show ?thesis .
  qed
  moreover have "\<exists>p1 path.
            StringPath_loop fo co sfnt sz f ([], 0, 0) pre
              = Some (Inr ((p1, sum_list (map XAdvance pre), sum_list (map YAdvance pre)),
                   None))
          \<and> GlyphPath fo co sfnt (ID g) sz (fst (glyph_position fo f pre g))
               (snd (glyph_position fo f pre g)) = Some (Inr (path, None))
          \<and> StringPath_loop fo co sfnt sz f ([], 0, 0) (pre @ [g])
              = Some (Inr (((case path of Some q \<Rightarrow> Append p1 q | None \<Rightarrow> p1),
                   sum_list (map XAdvance pre) + XAdvance g,
                   sum_list (map YAdvance pre) + YAdvance g), None))"
    if "glyphs = pre @ g # post" for pre g post
    using StringPath_loop_split [of fo co sfnt sz f pre g post p x y] assms that by simp
  moreover have "StringPath fo co sfnt (Inr Shape) s sz = Some (Inr (Some p, None))"
    if "Shape s sz = glyphs" "f = fdiv fo sz (ffrom_int fo (Head_UnitsPerEm sfnt))"
    for Shape s
    using assms that by (simp add: StringPath_def)
  ultimately show ?thesis using x by blast
qed

theorem StringPath_pen_is_sum_of_advances_witness:
  "StringPath_loop exact_ops exact_coords dot_font 1 1 ([], 0, 0)
      [\<lparr>ID = 1, XAdvance = 10, YAdvance = 0, XOffset = 3, YOffset = 0\<rparr>,
       \<lparr>ID = 1, XAdvance = 7, YAdvance = 0, XOffset = 2, YOffset = 0\<rparr>]
     = Some (Inr (([MoveTo 3 0, Close, MoveTo 12 0, Close], 17, 0), None))
   \<and> (17 :: 32 word) = sum_list (map XAdvance
      [\<lparr>ID = 1, XAdvance = 10, YAdvance = 0, XOffset = 3, YOffset = 0\<rparr>,
       \<lparr>ID = 1, XAdvance = 7, YAdvance = 0, XOffset = 2, YOffset = 0\<rparr>])
   \<and> sint (17 :: 32 word) = 17
   \<and> glyph_position exact_ops 1
        [\<lparr>ID = 1, XAdvance = 10, YAdvance = 0, XOffset = 3, YOffset = 0\<rparr>]
        \<lparr>ID = 1, XAdvance = 7, YAdvance = 0, XOffset = 2, YOffset = 0\<rparr> = (12, 0)
   \<and> GlyphPath exact_ops exact_coords dot_font 1 1 12 0
       = Some (Inr (Some [MoveTo 12 0, Close], None))
   \<and> StringPath exact_ops exact_coords dot_font
        (Inr (\<lambda>text sz. [\<lparr>ID = 1, XAdvance = 10, YAdvance = 0, XOffset = 3, YOffset = 0\<rparr>,
       \<lparr>ID = 1, XAdvance = 7, YAdvance = 0, XOffset = 2, YOffset = 0\<rparr>])) ''ab'' 1
       = Some (Inr (Some [MoveTo 3 0, Close, MoveTo 12 0, Close], None))"
proof -
  let ?g1 = "\<lparr>ID = 1, XAdvance = 10, YAdvance = 0, XOffset = 3, YOffset = 0\<rparr>"
  let ?g2 = "\<lparr>ID = 1, XAdvance = 7, YAdvance = 0, XOffset = 2, YOffset = 0\<rparr>"
  have run: "StringPath_loop exact_ops exact_coords dot_font 1 1 ([], 0, 0) [?g1, ?g2]
     = Some (Inr (([MoveTo 3 0, Close, MoveTo 12 0, Close], 17, 0), None))"
    by (simp add: StringPath_eval)
  note t = StringPath_pen_is_sum_of_advances [OF run]
  have pos: "glyph_position exact_ops 1 [?g1] ?g2 = (12, 0)"
    by (simp add: glyph_position_def exact_ops_def)
  have f: "(1 :: rat) = fdiv exact_ops 1 (ffrom_int exact_ops (Head_UnitsPerEm dot_font))"
    by (simp add: dot_font_def exact_ops_def)
  from t have all: "\<forall>pre g post. [?g1, ?g2] = pre @ g # post \<longrightarrow>
         (\<exists>p1 path.
            StringPath_loop exact_ops exact_coords dot_font 1 1 ([], 0, 0) pre
              = Some (Inr ((p1, sum_list (map XAdvance pre), sum_list (map YAdvance pre)),
                   None))
          \<and> GlyphPath exact_ops exact_coords dot_font (ID g) 1
               (fst (glyph_position exact_ops 1 pre g))
               (snd (glyph_position exact_ops 1 pre g)) = Some (Inr (path, None))
          \<and> StringPath_loop exact_ops exact_coords dot_font 1 1 ([], 0, 0) (pre @ [g])
              = Some (Inr (((case path of Some q \<Rightarrow> Append p1 q | None \<Rightarrow> p1),
                   sum_list (map XAdvance pre) + XAdvance g,
                   sum_list (map YAdvance pre) + YAdvance g), None)))"
    by (elim conjE)
  have split: "[?g1, ?g2] = [?g1] @ ?g2 # []" by simp
  from all [rule_format, OF split] obtain p1 path where
    "GlyphPath exact_ops exact_coords dot_font (ID ?g2) 1
       (fst (glyph_position exact_ops 1 [?g1] ?g2))
       (snd (glyph_position exact_ops 1 [?g1] ?g2)) = Some (Inr (path, None))"
    and "StringPath_loop exact_ops exact_coords dot_font 1 1 ([], 0, 0) ([?g1] @ [?g2])
       = Some (Inr (((case path of Some q \<Rightarrow> Append p1 q | None \<Rightarrow> p1),
            sum_list (map XAdvance [?g1]) + XAdvance ?g2,
            sum_list (map YAdvance [?g1]) + YAdvance ?g2), None))"
    by blast
  then have gp: "GlyphPath exact_ops exact_coords dot_font 1 1 12 0 = Some (Inr (path, None))"
    and pen: "StringPath_loop exact_ops exact_coords dot_font 1 1 ([], 0, 0) [?g1, ?g2]
       = Some (Inr (((case path of Some q \<Rightarrow> Append p1 q | None \<Rightarrow> p1), 17, 0), None))"
    unfolding pos by simp_all
  have gp': "GlyphPath exact_ops exact_coords dot_font 1 1 12 0
       = Some (Inr (Some [MoveTo 12 0, Close], None))"
    by (simp add: StringPath_eval)
  from t have shp: "\<forall>Shape s. Shape s 1 = [?g1, ?g2]
           \<and> (1 :: rat) = fdiv exact_ops 1 (ffrom_int exact_ops (Head_UnitsPerEm dot_font))
         \<longrightarrow> StringPath exact_ops exact_coords dot_font (Inr Shape) s 1
               = Some (Inr (Some [MoveTo 3 0, Close, MoveTo 12 0, Close], None))"
    by (elim conjE)
  have sp: "StringPath exact_ops exact_coords dot_font
        (Inr (\<lambda>text sz. [?g1, ?g2])) ''ab'' 1
       = Some (Inr (Some [MoveTo 3 0, Close, MoveTo 12 0, Close], None))"
    by (rule shp [rule_format, of "\<lambda>text sz. [?g1, ?g2]" "''ab''"]) (simp add: f [symmetric])
  have x: "(17 :: 32 word) = sum_list (map XAdvance [?g1, ?g2])" "sint (17 :: 32 word) = 17"
    by simp_all
  from run x pos gp' sp show ?thesis by (intro conjI)
qed

text \<open>
  C4, as the claim states it, fails. One glyph of advance 10 and offset 3 is decoded at
  \<open>x = 3\<close> and leaves the pen at 10, not at 13. Two glyphs of advances \<open>2^31 - 1\<close> and 1
  leave the pen at \<open>- 2^31\<close>, not at \<open>2^31\<close>.
\<close>

theorem StringPath_pen_counterexample:
  "StringPath_loop exact_ops exact_coords dot_font 1 1 ([], 0, 0)
      [\<lparr>ID = 1, XAdvance = 10, YAdvance = 0, XOffset = 3, YOffset = 0\<rparr>]
     = Some (Inr (([MoveTo 3 0, Close], 10, 0), None))
   \<and> sint (10 :: 32 word) \<noteq> sint (10 :: 32 word) + sint (3 :: 32 word)
   \<and> StringPath_loop exact_ops exact_coords dot_font 1 1 ([], 0, 0)
      [\<lparr>ID = 1, XAdvance = 0x7FFFFFFF, YAdvance = 0, XOffset = 0, YOffset = 0\<rparr>,
       \<lparr>ID = 1, XAdvance = 1, YAdvance = 0, XOffset = 0, YOffset = 0\<rparr>]
     = Some (Inr (([MoveTo 0 0, Close, MoveTo 2147483647 0, Close], 0x80000000, 0), None))
   \<and> sint (0x80000000 :: 32 word) \<noteq> sint (0x7FFFFFFF :: 32 word) + sint (1 :: 32 word)"
  by (simp add: StringPath_eval)

section \<open>Properties of the typographic substitution\<close>

subsection \<open>The tests and slices of a round do not panic\<close>

lemma DecodeRuneInString_width:
  "s \<noteq> [] \<Longrightarrow> 1 \<le> snd (DecodeRuneInString s) \<and> snd (DecodeRuneInString s) \<le> length s"
  by (cases s) (auto simp: DecodeRuneInString_def Let_def Suc_le_eq)

lemma DecodeRuneInString_ascii:
  "s \<noteq> [] \<Longrightarrow> of_char (hd s) < (0x80::nat) \<Longrightarrow> DecodeRuneInString s = (of_char (hd s), 1)"
  by (cases s) (simp_all add: DecodeRuneInString_def)

lemma decode_ascii_at:
  "i < length s \<Longrightarrow> of_char (s ! i) < (0x80::nat) \<Longrightarrow>
     DecodeRuneInString (drop i s) = (of_char (s ! i), 1)"
  using DecodeRuneInString_ascii [of "drop i s"] by (simp add: hd_drop_conv_nth)

lemma byte_is_eq: "k < length s \<Longrightarrow> byte_is s k c = Inr (s ! k = c)"
  by (simp add: byte_is_def)

lemma bytes_are_in_range:
  "i + length lit \<le> length s \<Longrightarrow> bytes_are s i lit = Inr (take (length lit) (drop i s) = lit)"
proof (induction lit arbitrary: i)
  case Nil
  then show ?case by simp
next
  case (Cons c cs)
  then have i: "i < length s" and rest: "Suc i + length cs \<le> length s" by simp_all
  have d: "drop i s = s ! i # drop (Suc i) s"
    using i by (simp add: Cons_nth_drop_Suc)
  show ?case
    using Cons.IH [OF rest] i by (auto simp: byte_is_def d)
qed

lemma literal_at_eq:
  "length lit = Suc k \<Longrightarrow>
     literal_at s i k lit = Inr (i + k < length s \<and> take (Suc k) (drop i s) = lit)"
  using bytes_are_in_range [of i lit s] by (auto simp: literal_at_def)

lemma literal_at_head:
  "i < length s \<Longrightarrow> s ! i \<noteq> c \<Longrightarrow> literal_at s i k (c # cs) = Inr False"
  by (simp add: literal_at_def byte_is_eq)

lemma literal2:
  "literal_at s i (Suc 0) [c0, c1] = Inr (i + 1 < length s \<and> s ! i = c0 \<and> s ! (i + 1) = c1)"
proof (cases "i + 1 < length s")
  case True
  then show ?thesis by (simp add: literal_at_def byte_is_eq)
next
  case False
  then show ?thesis by (simp add: literal_at_def)
qed

lemma literal3:
  "literal_at s i 2 [c0, c1, c2]
     = Inr (i + 2 < length s \<and> s ! i = c0 \<and> s ! (i + 1) = c1 \<and> s ! (i + 2) = c2)"
proof (cases "i + 2 < length s")
  case True
  then show ?thesis by (simp add: literal_at_def byte_is_eq numeral_2_eq_2)
next
  case False
  then show ?thesis by (simp add: literal_at_def)
qed

lemma replace_continue_eq:
  "i + n \<le> length s \<Longrightarrow>
     replace_continue s i n t r a b = Inr (take i s @ t @ drop (i + n) s, length t, r, a, b)"
  by (simp add: replace_continue_def stringReplace_def)

lemma rune_after_eq:
  "rune_after s k = Inr (if k < length s then fst (DecodeRuneInString (drop k s)) else 0)"
  by (simp add: rune_after_def slice_from_def)

lemma quoteReplace_eq:
  "i < length s \<Longrightarrow> quote = 0x22 \<or> quote = 0x27 \<Longrightarrow>
     \<exists>t isOpen'. length t = 3 \<and>
        quoteReplace s i prev quote next isOpen
          = Inr ((take i s @ t @ drop (i + 1) s, 3), isOpen')"
  by (auto simp: quoteReplace_def Let_def stringReplace_def left_double_quote_def
      right_double_quote_def left_single_quote_def right_single_quote_def)

subsection \<open>Every round advances\<close>

lemma scan_advances_replace:
  "i + n \<le> length s \<Longrightarrow> 0 < n \<Longrightarrow> scan_advances s i (replace_continue s i n t r a b)"
  by (simp add: replace_continue_eq scan_advances_def) arith

lemma scan_advances_keep:
  "1 \<le> sz \<Longrightarrow> i + sz \<le> length s \<Longrightarrow> scan_advances s i (Inr (s, sz, r, a, b))"
  by (simp add: scan_advances_def)

lemma fractions_advances:
  "1 \<le> sz \<Longrightarrow> i + sz \<le> length s \<Longrightarrow> scan_advances s i (fractions s i rPrev r sz a b)"
  by (simp add: fractions_def rune_after_eq byte_is_eq scan_advances_replace scan_advances_keep)

lemma quotes_advances:
  assumes "i < length s" "1 \<le> sz" "i + sz \<le> length s"
    and r: "s ! i = CHR 0x22 \<longrightarrow> r = 0x22" "s ! i = CHR 0x27 \<longrightarrow> r = 0x27"
  shows "scan_advances s i (quotes s i rPrev r sz a b)"
proof (cases "s ! i = CHR 0x22 \<or> s ! i = CHR 0x27")
  case False
  then show ?thesis
    using assms by (simp add: quotes_def byte_is_eq fractions_advances)
next
  case True
  then have q: "r = 0x22 \<or> r = 0x27" using r by blast
  obtain t1 o1 where q1: "length t1 = 3"
    "quoteReplace s i rPrev r
       (if i + 1 < length s then fst (DecodeRuneInString (drop (i + 1) s)) else 0) b
       = Inr ((take i s @ t1 @ drop (i + 1) s, 3), o1)"
    using quoteReplace_eq [OF assms(1) q] by blast
  obtain t2 o2 where q2: "length t2 = 3"
    "quoteReplace s i rPrev r
       (if i + 1 < length s then fst (DecodeRuneInString (drop (i + 1) s)) else 0) a
       = Inr ((take i s @ t2 @ drop (i + 1) s, 3), o2)"
    using quoteReplace_eq [OF assms(1) q] by blast
  show ?thesis
    using True assms(1) q1 q2
    by (auto simp: quotes_def byte_is_eq rune_after_eq scan_advances_def)
qed

lemma round_advances:
  assumes "i < length s"
  shows "scan_advances s i (substituteTypography_round s i rPrev a b)"
proof -
  have ne: "drop i s \<noteq> []" using assms by simp
  obtain r sz where d: "DecodeRuneInString (drop i s) = (r, sz)"
    by (cases "DecodeRuneInString (drop i s)")
  have "1 \<le> sz \<and> sz \<le> length s - i"
    using DecodeRuneInString_width [OF ne] d by simp
  then have w: "1 \<le> sz" "i + sz \<le> length s"
    using assms by arith+
  have h: "hd (drop i s) = s ! i" using assms by (simp add: hd_drop_conv_nth)
  have r1: "s ! i = CHR 0x22 \<longrightarrow> r = 0x22"
    using DecodeRuneInString_ascii [OF ne] d h by auto
  have r2: "s ! i = CHR 0x27 \<longrightarrow> r = 0x27"
    using DecodeRuneInString_ascii [OF ne] d h by auto
  have q: "scan_advances s i (quotes s i rPrev r sz a b)"
    by (rule quotes_advances [OF assms w r1 r2])
  show ?thesis
    using assms d q
    by (simp add: substituteTypography_round_def slice_from_def literal_at_eq
        scan_advances_replace)
qed

lemma round_decreases:
  assumes "i < length s"
  shows "\<exists>s' sz' r' a' b'.
           substituteTypography_round s i rPrev a b = Inr (s', sz', r', a', b')
           \<and> length s' - (i + sz') < length s - i"
proof -
  have "scan_advances s i (substituteTypography_round s i rPrev a b)"
    by (rule round_advances [OF assms])
  then obtain s' sz' r' a' b' where
    rd: "substituteTypography_round s i rPrev a b = Inr (s', sz', r', a', b')"
    and b1: "i + sz' \<le> length s'" and b2: "length s' < length s + sz'"
    by (auto simp: scan_advances_def split: sum.splits)
  have "length s' - (i + sz') < length s - i" using b1 b2 assms by arith
  with rd show ?thesis by blast
qed

lemma loop_returns:
  "\<exists>res. substituteTypography_loop s i sz r a b = Some (Inr res)"
proof (induction "length s - (i + sz)" arbitrary: s i sz r a b rule: less_induct)
  case less
  show ?case
  proof (cases "length s \<le> i + sz")
    case True
    then show ?thesis by (subst substituteTypography_loop.simps) simp
  next
    case False
    then have lt: "i + sz < length s" by simp
    from round_decreases [OF lt] obtain s' sz' r' a' b' where
      rd: "substituteTypography_round s (i + sz) r a b = Inr (s', sz', r', a', b')"
      and dec: "length s' - (i + sz + sz') < length s - (i + sz)"
      by blast
    from less [OF dec] obtain res where
      res: "substituteTypography_loop s' (i + sz) sz' r' a' b' = Some (Inr res)" by blast
    have "substituteTypography_loop s i sz r a b
            = substituteTypography_loop s' (i + sz) sz' r' a' b'"
      using lt rd by (subst substituteTypography_loop.simps) simp
    with res show ?thesis by (intro exI [of _ res]) simp
  qed
qed

text \<open>
  C5: for every font, string and pair of quote flags, \<open>substituteTypography\<close> returns a
  string and two flags: it neither panics nor stays in its loop. At every position \<open>i\<close>
  inside the string a round of the loop does not panic, and the bytes left behind the next
  position \<open>i + size\<close> of the new string are fewer than those left behind \<open>i\<close>.
\<close>

theorem substituteTypography_total:
  "(\<exists>s' inSingleQuote' inDoubleQuote'.
      substituteTypography f s inSingleQuote inDoubleQuote
        = Some (Inr (s', inSingleQuote', inDoubleQuote')))
   \<and> (\<forall>i rPrev a b. i < length s \<longrightarrow>
        (\<exists>s' sz' r' a' b'.
           substituteTypography_round s i rPrev a b = Inr (s', sz', r', a', b')
           \<and> length s' - (i + sz') < length s - i))"
proof
  show "\<exists>s' inSingleQuote' inDoubleQuote'.
      substituteTypography f s inSingleQuote inDoubleQuote
        = Some (Inr (s', inSingleQuote', inDoubleQuote'))"
    using loop_returns [of s 0 0 0 inSingleQuote inDoubleQuote]
    by (auto simp: substituteTypography_def)
next
  show "\<forall>i rPrev a b. i < length s \<longrightarrow>
        (\<exists>s' sz' r' a' b'.
           substituteTypography_round s i rPrev a b = Inr (s', sz', r', a', b')
           \<and> length s' - (i + sz') < length s - i)"
    using round_decreases by blast
qed

theorem substituteTypography_total_witness:
  "(\<exists>s' a' b'. substituteTypography \<lparr>typography = True, ligatures = []\<rparr>
        [CHR 0xFF, CHR ''-'', CHR ''-''] False False = Some (Inr (s', a', b')))
   \<and> 1 < length [CHR 0xFF, CHR ''-'', CHR ''-'']
   \<and> (\<exists>s' sz' r' a' b'.
         substituteTypography_round [CHR 0xFF, CHR ''-'', CHR ''-''] 1 0 False False
           = Inr (s', sz', r', a', b')
         \<and> length s' - (1 + sz') < length [CHR 0xFF, CHR ''-'', CHR ''-''] - 1)"
proof -
  note t = substituteTypography_total [where f = "\<lparr>typography = True, ligatures = []\<rparr>"
      and s = "[CHR 0xFF, CHR ''-'', CHR ''-'']" and inSingleQuote = False
      and inDoubleQuote = False]
  have h: "1 < length [CHR 0xFF, CHR ''-'', CHR ''-'']" by simp
  from t have "\<exists>s' a' b'. substituteTypography \<lparr>typography = True, ligatures = []\<rparr>
        [CHR 0xFF, CHR ''-'', CHR ''-''] False False = Some (Inr (s', a', b'))"
    by (rule conjunct1)
  moreover from t h have "\<exists>s' sz' r' a' b'.
         substituteTypography_round [CHR 0xFF, CHR ''-'', CHR ''-''] 1 0 False False
           = Inr (s', sz', r', a', b')
         \<and> length s' - (1 + sz') < length [CHR 0xFF, CHR ''-'', CHR ''-''] - 1"
    by blast
  ultimately show ?thesis using h by blast
qed

subsection \<open>Dashes\<close>

lemmas substituteTypography_eval =
  substituteTypography_def substituteTypography_loop.simps substituteTypography_round_def
  slice_from_def DecodeRuneInString_def literal_at_def byte_is_def at_index_def
  replace_continue_def stringReplace_def quotes_def fractions_def rune_after_def
  isWordBoundary_def isspace_def ispunct_def punct_runes_def

lemma round_em_dash:
  assumes "i + 2 < length s" "s ! i = CHR ''-''" "s ! (i + 1) = CHR ''-''"
    "s ! (i + 2) = CHR ''-''"
  shows "substituteTypography_round s i rPrev a b
           = Inr (take i s @ em_dash @ drop (i + 3) s, 3, 0x2D, a, b)"
proof -
  have lt: "i < length s" using assms(1) by simp
  have d: "DecodeRuneInString (drop i s) = (0x2D, 1)"
    using decode_ascii_at [OF lt] assms(2) by simp
  show ?thesis
    using assms lt d
    by (simp add: substituteTypography_round_def slice_from_def literal_at_head literal3
        replace_continue_eq em_dash_def)
qed

lemma round_en_dash:
  assumes "i + 1 < length s" "s ! i = CHR ''-''" "s ! (i + 1) = CHR ''-''"
    and "\<not> (i + 2 < length s \<and> s ! (i + 2) = CHR ''-'')"
  shows "substituteTypography_round s i rPrev a b
           = Inr (take i s @ en_dash @ drop (i + 2) s, 3, 0x2D, a, b)"
proof -
  have lt: "i < length s" using assms(1) by simp
  have d: "DecodeRuneInString (drop i s) = (0x2D, 1)"
    using decode_ascii_at [OF lt] assms(2) by simp
  show ?thesis
    using assms lt d
    by (auto simp: substituteTypography_round_def slice_from_def literal_at_head literal3
        literal2 replace_continue_eq en_dash_def)
qed

text \<open>
  C6: at a scan position where three hyphens begin, the round writes an em-dash in their
  place; where two hyphens begin that no third hyphen follows, it writes an en-dash. The
  width of either is 3 bytes, and \<open>r\<close> is the hyphen that was read. With typography
  enabled, \<open>1870--1880\<close> becomes \<open>1870\<close>, en-dash, \<open>1880\<close>, three hyphens become an
  em-dash, and of four hyphens the first three become an em-dash.
\<close>

theorem substituteTypography_dashes:
  "(i + 2 < length s \<and> s ! i = CHR ''-'' \<and> s ! (i + 1) = CHR ''-'' \<and> s ! (i + 2) = CHR ''-''
      \<longrightarrow> substituteTypography_round s i rPrev a b
            = Inr (take i s @ em_dash @ drop (i + 3) s, 3, 0x2D, a, b))
   \<and> (i + 1 < length s \<and> s ! i = CHR ''-'' \<and> s ! (i + 1) = CHR ''-''
        \<and> \<not> (i + 2 < length s \<and> s ! (i + 2) = CHR ''-'')
      \<longrightarrow> substituteTypography_round s i rPrev a b
            = Inr (take i s @ en_dash @ drop (i + 2) s, 3, 0x2D, a, b))
   \<and> substituteTypography \<lparr>typography = True, ligatures = lig\<rparr> ''1870--1880'' a b
       = Some (Inr (''1870'' @ en_dash @ ''1880'', a, b))
   \<and> substituteTypography \<lparr>typography = True, ligatures = lig\<rparr> ''---'' a b
       = Some (Inr (em_dash, a, b))
   \<and> substituteTypography \<lparr>typography = True, ligatures = lig\<rparr> ''----'' a b
       = Some (Inr (em_dash @ ''-'', a, b))"
proof (intro conjI impI)
  assume "i + 2 < length s \<and> s ! i = CHR ''-'' \<and> s ! (i + 1) = CHR ''-''
    \<and> s ! (i + 2) = CHR ''-''"
  then show "substituteTypography_round s i rPrev a b
            = Inr (take i s @ em_dash @ drop (i + 3) s, 3, 0x2D, a, b)"
    using round_em_dash by blast
next
  assume "i + 1 < length s \<and> s ! i = CHR ''-'' \<and> s ! (i + 1) = CHR ''-''
        \<and> \<not> (i + 2 < length s \<and> s ! (i + 2) = CHR ''-'')"
  then show "substituteTypography_round s i rPrev a b
            = Inr (take i s @ en_dash @ drop (i + 2) s, 3, 0x2D, a, b)"
    using round_en_dash by blast
next
  show "substituteTypography \<lparr>typography = True, ligatures = lig\<rparr> ''1870--1880'' a b
       = Some (Inr (''1870'' @ en_dash @ ''1880'', a, b))"
    by (simp add: substituteTypography_eval en_dash_def)
next
  show "substituteTypography \<lparr>typography = True, ligatures = lig\<rparr> ''---'' a b
       = Some (Inr (em_dash, a, b))"
    by (simp add: substituteTypography_eval em_dash_def)
next
  show "substituteTypography \<lparr>typography = True, ligatures = lig\<rparr> ''----'' a b
       = Some (Inr (em_dash @ ''-'', a, b))"
    by (simp add: substituteTypography_eval em_dash_def)
qed

theorem substituteTypography_dashes_witness:
  "(1 + 2 < length ''a---b'' \<and> ''a---b'' ! 1 = CHR ''-'' \<and> ''a---b'' ! (1 + 1) = CHR ''-''
      \<and> ''a---b'' ! (1 + 2) = CHR ''-'')
   \<and> substituteTypography_round ''a---b'' 1 0x61 False False
       = Inr (''a'' @ em_dash @ ''b'', 3, 0x2D, False, False)
   \<and> (1 + 1 < length ''a--b'' \<and> ''a--b'' ! 1 = CHR ''-'' \<and> ''a--b'' ! (1 + 1) = CHR ''-''
      \<and> \<not> (1 + 2 < length ''a--b'' \<and> ''a--b'' ! (1 + 2) = CHR ''-''))
   \<and> substituteTypography_round ''a--b'' 1 0x61 False False
       = Inr (''a'' @ en_dash @ ''b'', 3, 0x2D, False, False)"
proof -
  have h3: "1 + 2 < length ''a---b'' \<and> ''a---b'' ! 1 = CHR ''-''
      \<and> ''a---b'' ! (1 + 1) = CHR ''-'' \<and> ''a---b'' ! (1 + 2) = CHR ''-''"
    by simp
  have h2: "1 + 1 < length ''a--b'' \<and> ''a--b'' ! 1 = CHR ''-'' \<and> ''a--b'' ! (1 + 1) = CHR ''-''
      \<and> \<not> (1 + 2 < length ''a--b'' \<and> ''a--b'' ! (1 + 2) = CHR ''-'')"
    by simp
  from substituteTypography_dashes [where i = 1 and s = "''a---b''" and rPrev = "0x61"
      and a = False and b = False] h3
  have e3: "substituteTypography_round ''a---b'' 1 0x61 False False
       = Inr (take 1 ''a---b'' @ em_dash @ drop (1 + 3) ''a---b'', 3, 0x2D, False, False)"
    by blast
  from substituteTypography_dashes [where i = 1 and s = "''a--b''" and rPrev = "0x61"
      and a = False and b = False] h2
  have e2: "substituteTypography_round ''a--b'' 1 0x61 False False
       = Inr (take 1 ''a--b'' @ en_dash @ drop (1 + 2) ''a--b'', 3, 0x2D, False, False)"
    by blast
  from e3 have e3': "substituteTypography_round ''a---b'' 1 0x61 False False
       = Inr (''a'' @ em_dash @ ''b'', 3, 0x2D, False, False)" by simp
  from e2 have e2': "substituteTypography_round ''a--b'' 1 0x61 False False
       = Inr (''a'' @ en_dash @ ''b'', 3, 0x2D, False, False)" by simp
  from h3 h2 e3' e2' show ?thesis by blast
qed

subsection \<open>Fractions\<close>

lemma round_fraction:
  assumes "i + 2 < length s" "s ! (i + 1) = CHR ''/''"
    and "(s ! i, s ! (i + 2), t) \<in>
           {(CHR ''1'', CHR ''2'', one_half), (CHR ''1'', CHR ''4'', one_quarter),
            (CHR ''3'', CHR ''4'', three_quarters), (CHR ''+'', CHR ''-'', plus_minus)}"
  shows "substituteTypography_round s i rPrev a b =
     (if isWordBoundary rPrev \<and> rPrev \<noteq> 0x2F
         \<and> isWordBoundary (if i + 3 < length s then fst (DecodeRuneInString (drop (i + 3) s))
              else 0)
         \<and> (if i + 3 < length s then fst (DecodeRuneInString (drop (i + 3) s)) else 0) \<noteq> 0x2F
      then Inr (take i s @ t @ drop (i + 3) s, 2, of_char (s ! i), a, b)
      else Inr (s, 1, of_char (s ! i), a, b))"
proof -
  have lt: "i < length s" using assms(1) by simp
  have asc: "of_char (s ! i) < (0x80::nat)" using assms(3) by auto
  have d: "DecodeRuneInString (drop i s) = (of_char (s ! i), 1)"
    by (rule decode_ascii_at [OF lt asc])
  have nq: "s ! i \<noteq> CHR 0x22" "s ! i \<noteq> CHR 0x27" "s ! i \<noteq> CHR ''.''" "s ! i \<noteq> CHR ''-''"
    "s ! i \<noteq> CHR ''(''"
    using assms(3) by auto
  have q: "substituteTypography_round s i rPrev a b
             = fractions s i rPrev (of_char (s ! i)) 1 a b"
    using lt d nq
    by (simp add: substituteTypography_round_def slice_from_def literal_at_head quotes_def
        byte_is_eq)
  show ?thesis
    unfolding q using assms lt
    by (auto simp: fractions_def byte_is_eq rune_after_eq replace_continue_eq
         one_half_def one_quarter_def three_quarters_def plus_minus_def)
qed

text \<open>
  C7: at a scan position where one of \<open>1/2\<close>, \<open>1/4\<close>, \<open>3/4\<close> and \<open>+/-\<close> begins, the round
  writes the single character \<open>t\<close> of that pattern in place of the three bytes exactly
  when \<open>isWordBoundary\<close> holds of the rune before and of the rune after and neither is the
  slash; otherwise it leaves the string as it is and moves on by one byte. The rune
  before is \<open>rPrev\<close>, the rune read at the scan position before this one and zero at the
  start of the text; the rune after is the one decoded behind the three bytes and zero at
  the end of the text. With typography enabled, \<open>1/2 cup\<close> becomes the one-half sign and
  \<open> cup\<close>, and \<open>a1/2 cup\<close> and \<open>1/2/3\<close> stay as they are.
\<close>

theorem substituteTypography_fractions:
  "(i + 2 < length s \<and> s ! (i + 1) = CHR ''/''
      \<and> (s ! i, s ! (i + 2), t) \<in>
           {(CHR ''1'', CHR ''2'', one_half), (CHR ''1'', CHR ''4'', one_quarter),
            (CHR ''3'', CHR ''4'', three_quarters), (CHR ''+'', CHR ''-'', plus_minus)}
    \<longrightarrow> substituteTypography_round s i rPrev a b =
     (if isWordBoundary rPrev \<and> rPrev \<noteq> 0x2F
         \<and> isWordBoundary (if i + 3 < length s then fst (DecodeRuneInString (drop (i + 3) s))
              else 0)
         \<and> (if i + 3 < length s then fst (DecodeRuneInString (drop (i + 3) s)) else 0) \<noteq> 0x2F
      then Inr (take i s @ t @ drop (i + 3) s, 2, of_char (s ! i), a, b)
      else Inr (s, 1, of_char (s ! i), a, b)))
   \<and> substituteTypography \<lparr>typography = True, ligatures = lig\<rparr> ''1/2 cup'' a b
       = Some (Inr (one_half @ '' cup'', a, b))
   \<and> substituteTypography \<lparr>typography = True, ligatures = lig\<rparr> ''a1/2 cup'' a b
       = Some (Inr (''a1/2 cup'', a, b))
   \<and> substituteTypography \<lparr>typography = True, ligatures = lig\<rparr> ''1/2/3'' a b
       = Some (Inr (''1/2/3'', a, b))"
proof (intro conjI impI)
  assume "i + 2 < length s \<and> s ! (i + 1) = CHR ''/''
      \<and> (s ! i, s ! (i + 2), t) \<in>
           {(CHR ''1'', CHR ''2'', one_half), (CHR ''1'', CHR ''4'', one_quarter),
            (CHR ''3'', CHR ''4'', three_quarters), (CHR ''+'', CHR ''-'', plus_minus)}"
  then show "substituteTypography_round s i rPrev a b =
     (if isWordBoundary rPrev \<and> rPrev \<noteq> 0x2F
         \<and> isWordBoundary (if i + 3 < length s then fst (DecodeRuneInString (drop (i + 3) s))
              else 0)
         \<and> (if i + 3 < length s then fst (DecodeRuneInString (drop (i + 3) s)) else 0) \<noteq> 0x2F
      then Inr (take i s @ t @ drop (i + 3) s, 2, of_char (s ! i), a, b)
      else Inr (s, 1, of_char (s ! i), a, b))"
    using round_fraction [of i s t rPrev a b] by blast
next
  show "substituteTypography \<lparr>typography = True, ligatures = lig\<rparr> ''1/2 cup'' a b
       = Some (Inr (one_half @ '' cup'', a, b))"
    by (simp add: substituteTypography_eval one_half_def)
next
  show "substituteTypography \<lparr>typography = True, ligatures = lig\<rparr> ''a1/2 cup'' a b
       = Some (Inr (''a1/2 cup'', a, b))"
    by (simp add: substituteTypography_eval)
next
  show "substituteTypography \<lparr>typography = True, ligatures = lig\<rparr> ''1/2/3'' a b
       = Some (Inr (''1/2/3'', a, b))"
    by (simp add: substituteTypography_eval)
qed

theorem substituteTypography_fractions_witness:
  "(2 + 2 < length ''a 3/4 b'' \<and> ''a 3/4 b'' ! (2 + 1) = CHR ''/''
      \<and> ''a 3/4 b'' ! 2 = CHR ''3'' \<and> ''a 3/4 b'' ! (2 + 2) = CHR ''4'')
   \<and> isWordBoundary 0x20 \<and> (0x20 :: nat) \<noteq> 0x2F
   \<and> substituteTypography_round ''a 3/4 b'' 2 0x20 False False
       = Inr (''a '' @ three_quarters @ '' b'', 2, 0x33, False, False)
   \<and> \<not> isWordBoundary 0x61
   \<and> substituteTypography_round ''a 3/4 b'' 2 0x61 False False
       = Inr (''a 3/4 b'', 1, 0x33, False, False)"
proof -
  have h: "2 + 2 < length ''a 3/4 b'' \<and> ''a 3/4 b'' ! (2 + 1) = CHR ''/''
      \<and> (''a 3/4 b'' ! 2, ''a 3/4 b'' ! (2 + 2), three_quarters) \<in>
           {(CHR ''1'', CHR ''2'', one_half), (CHR ''1'', CHR ''4'', one_quarter),
            (CHR ''3'', CHR ''4'', three_quarters), (CHR ''+'', CHR ''-'', plus_minus)}"
    by simp
  have b1: "isWordBoundary 0x20" "(0x20 :: nat) \<noteq> 0x2F" "\<not> isWordBoundary 0x61"
    by (simp_all add: isWordBoundary_def isspace_def ispunct_def punct_runes_def)
  have nx: "(if 2 + 3 < length ''a 3/4 b''
             then fst (DecodeRuneInString (drop (2 + 3) ''a 3/4 b'')) else 0) = 0x20"
    by (simp add: DecodeRuneInString_def)
  from substituteTypography_fractions [where i = 2 and s = "''a 3/4 b''"
      and t = three_quarters and rPrev = "0x20" and a = False and b = False] h
  have e1: "substituteTypography_round ''a 3/4 b'' 2 0x20 False False
       = Inr (''a '' @ three_quarters @ '' b'', 2, 0x33, False, False)"
    unfolding nx using b1 by simp
  from substituteTypography_fractions [where i = 2 and s = "''a 3/4 b''"
      and t = three_quarters and rPrev = "0x61" and a = False and b = False] h
  have e2: "substituteTypography_round ''a 3/4 b'' 2 0x61 False False
       = Inr (''a 3/4 b'', 1, 0x33, False, False)"
    unfolding nx using b1 by simp
  from h b1 e1 e2 show ?thesis by simp
qed

section \<open>Properties of font faces\<close>

lemma DeepEqual_iff: "DeepEqual a b \<longleftrightarrow> a = b"
  by (cases a; cases b) (auto simp: DeepEqual_def list_all2_eq [symmetric])

lemma float64_eq_change:
  "float64_eq a b \<Longrightarrow> float64_eq a s \<Longrightarrow> s = b \<or> (float64_is_zero s \<and> float64_is_zero b)"
  by (auto simp: float64_eq_def)

text \<open>
  C9, as the code has it, for faces whose decorations are among the decorators of the
  package. \<open>Equals\<close> holds of two faces exactly when they hold the same font pointer, their
  sizes compare equal with \<open>==\<close>, and their style, variant, color and decoration list are
  the same, a nil list being the same as a nil list only. A face equals itself exactly
  when its size is not a NaN, and a face whose size is not a NaN equals every face with
  the same six fields. When \<open>Equals\<close> holds of two faces, putting another value into one
  of the six fields of the second face makes it false; for the size, unless both the old
  and the new size are zeros. The fields \<open>family\<close>, \<open>Scale\<close>, \<open>Voffset\<close>, \<open>FauxBold\<close> and
  \<open>FauxItalic\<close> have no part in it.
\<close>

theorem Equals_iff_fields_agree:
  "(Equals ff other \<longleftrightarrow>
      Font ff = Font other \<and> float64_eq (Size ff) (Size other) \<and> Style ff = Style other
      \<and> Variant ff = Variant other \<and> Color ff = Color other \<and> deco ff = deco other)
   \<and> (Equals ff ff \<longleftrightarrow> \<not> float64_is_NaN (Size ff))
   \<and> (Font other = Font ff \<and> Size other = Size ff \<and> Style other = Style ff
        \<and> Variant other = Variant ff \<and> Color other = Color ff \<and> deco other = deco ff
        \<and> \<not> float64_is_NaN (Size ff) \<longrightarrow> Equals ff other)
   \<and> (Equals ff other \<longrightarrow>
         (fnt \<noteq> Font other \<longrightarrow> \<not> Equals ff (other\<lparr>Font := fnt\<rparr>))
       \<and> (s \<noteq> Size other \<and> \<not> (float64_is_zero s \<and> float64_is_zero (Size other))
            \<longrightarrow> \<not> Equals ff (other\<lparr>Size := s\<rparr>))
       \<and> (st \<noteq> Style other \<longrightarrow> \<not> Equals ff (other\<lparr>Style := st\<rparr>))
       \<and> (v \<noteq> Variant other \<longrightarrow> \<not> Equals ff (other\<lparr>Variant := v\<rparr>))
       \<and> (col \<noteq> Color other \<longrightarrow> \<not> Equals ff (other\<lparr>Color := col\<rparr>))
       \<and> (d \<noteq> deco other \<longrightarrow> \<not> Equals ff (other\<lparr>deco := d\<rparr>)))
   \<and> Equals ff (other\<lparr>family := fam, Scale := sc, Voffset := vo, FauxBold := fb,
         FauxItalic := fi\<rparr>) = Equals ff other"
  using float64_eq_change [of "Size ff" "Size other" s]
  by (auto simp: Equals_def DeepEqual_iff) (auto simp: float64_eq_def)

theorem Equals_iff_fields_agree_witness:
  "Equals plain_face plain_face
   \<and> \<not> float64_is_NaN (Size plain_face)
   \<and> Equals plain_face (plain_face\<lparr>family := 7, Scale := 0, Voffset := 1, FauxBold := 1,
         FauxItalic := 1\<rparr>)
   \<and> (3 \<noteq> Font plain_face \<and> \<not> Equals plain_face (plain_face\<lparr>Font := 3\<rparr>))
   \<and> (0x4024000000000000 \<noteq> Size plain_face
        \<and> \<not> Equals plain_face (plain_face\<lparr>Size := 0x4024000000000000\<rparr>))
   \<and> (1 \<noteq> Style plain_face \<and> \<not> Equals plain_face (plain_face\<lparr>Style := 1\<rparr>))
   \<and> (4 \<noteq> Variant plain_face \<and> \<not> Equals plain_face (plain_face\<lparr>Variant := 4\<rparr>))
   \<and> ((255, 0, 0, 255) \<noteq> Color plain_face
        \<and> \<not> Equals plain_face (plain_face\<lparr>Color := (255, 0, 0, 255)\<rparr>))
   \<and> (Some [FontUnderline, FontOverline] \<noteq> deco plain_face
        \<and> \<not> Equals plain_face (plain_face\<lparr>deco := Some [FontUnderline, FontOverline]\<rparr>))"
proof -
  note t = Equals_iff_fields_agree [where ff = plain_face and other = plain_face
      and fnt = 3 and s = "0x4024000000000000" and st = 1 and v = 4
      and col = "(255, 0, 0, 255)" and d = "Some [FontUnderline, FontOverline]"
      and fam = 7 and sc = 0 and vo = 1 and fb = 1 and fi = 1]
  have h: "\<not> float64_is_NaN (Size plain_face)"
    "3 \<noteq> Font plain_face" "0x4024000000000000 \<noteq> Size plain_face"
    "\<not> (float64_is_zero 0x4024000000000000 \<and> float64_is_zero (Size plain_face))"
    "1 \<noteq> Style plain_face" "4 \<noteq> Variant plain_face"
    "(255, 0, 0, 255) \<noteq> Color plain_face"
    "Some [FontUnderline, FontOverline] \<noteq> deco plain_face"
    by (simp_all add: plain_face_def float64_is_NaN_def float64_is_zero_def)
  from t h(1) have e: "Equals plain_face plain_face" by (elim conjE) simp
  from t e h show ?thesis by (elim conjE) simp
qed

text \<open>
  C9, as the claim states it, fails. A face whose size is a NaN is not equal to itself,
  though the two faces agree on every field. Two faces of the sizes \<open>0.0\<close> and \<open>-0.0\<close> are
  equal, though the field has been changed. A face with the nil decoration list and a
  face with the empty one are not equal, though neither holds a decoration.
\<close>

theorem Equals_iff_fields_agree_counterexample:
  "\<not> Equals (plain_face\<lparr>Size := 0x7FF8000000000000\<rparr>)
        (plain_face\<lparr>Size := 0x7FF8000000000000\<rparr>)
   \<and> Equals (plain_face\<lparr>Size := 0\<rparr>) (plain_face\<lparr>Size := 0x8000000000000000\<rparr>)
   \<and> (0 :: float64) \<noteq> 0x8000000000000000
   \<and> \<not> Equals (plain_face\<lparr>deco := None\<rparr>) (plain_face\<lparr>deco := Some []\<rparr>)"
  by (simp add: Equals_def float64_eq_def float64_is_NaN_def float64_is_zero_def
      plain_face_def DeepEqual_def)

lemma ToPath_runes_append:
  "ToPath_runes fo cv sf ff st (pre @ rest) =
     (case ToPath_runes fo cv sf ff st pre of
        Inl ret \<Rightarrow> Inl ret
      | Inr st' \<Rightarrow> ToPath_runes fo cv sf ff st' rest)"
  by (induction pre arbitrary: st) (auto split: sum.splits)

lemma ToPath_rune_failure:
  "lookup_fails fo cv sf ff r \<Longrightarrow>
     ToPath_rune fo cv sf ff (p, x, prevIndex) (i, r) = Inl (p, ffrom_int fo 0)"
  by (auto simp: ToPath_rune_def lookup_fails_def Let_def split: prod.splits)

lemma ToPath_rune_success:
  assumes "\<not> lookup_fails fo cv sf ff r"
  shows "\<exists>st'. ToPath_rune fo cv sf ff st (i, r) = Inr st'"
proof -
  obtain p x prevIndex where st: "st = (p, x, prevIndex)" by (cases st)
  show ?thesis
    using assms unfolding st
    by (simp add: ToPath_rune_def lookup_fails_def Let_def split_beta)
qed

lemma ToPath_runes_success:
  "\<forall>ir \<in> set pre. \<not> lookup_fails fo cv sf ff (snd ir) \<Longrightarrow>
     \<exists>st'. ToPath_runes fo cv sf ff st pre = Inr st'"
proof (induction pre arbitrary: st)
  case Nil
  show ?case by (intro exI [of _ st]) simp
next
  case (Cons ir pre)
  obtain i r where ir: "ir = (i, r)" by (cases ir)
  from Cons.prems ir have "\<not> lookup_fails fo cv sf ff r" by simp
  from ToPath_rune_success [OF this] obtain st1 where
    "ToPath_rune fo cv sf ff st (i, r) = Inr st1" by blast
  moreover have "\<forall>ir \<in> set pre. \<not> lookup_fails fo cv sf ff (snd ir)"
    using Cons.prems by simp
  from Cons.IH [OF this, of st1] obtain st2 where
    "ToPath_runes fo cv sf ff st1 pre = Inr st2" ..
  ultimately show ?case using ir by (intro exI [of _ st2]) simp
qed

lemma ToPath_at_failure:
  assumes "range_string s = pre @ (i, r) # post"
    and "ToPath_runes fo cv sf ff ([], ffrom_int fo 0, 0) pre = Inr (p, x, prevIndex)"
    and "lookup_fails fo cv sf ff r"
  shows "ToPath fo cv sf ff s = (p, ffrom_int fo 0)"
  using assms(1,2) ToPath_rune_failure [OF assms(3), of p x prevIndex i]
  by (simp add: ToPath_def ToPath_runes_append)

lemma ToPath_first_failure:
  assumes "\<exists>ir \<in> set (range_string s). lookup_fails fo cv sf ff (snd ir)"
  shows "\<exists>pre i r post p x prevIndex.
           range_string s = pre @ (i, r) # post
         \<and> ToPath_runes fo cv sf ff ([], ffrom_int fo 0, 0) pre = Inr (p, x, prevIndex)
         \<and> lookup_fails fo cv sf ff r
         \<and> ToPath fo cv sf ff s = (p, ffrom_int fo 0)"
proof -
  from split_list_first_prop [OF assms] obtain pre ir post where
    sp: "range_string s = pre @ ir # post" and f: "lookup_fails fo cv sf ff (snd ir)"
    and ok: "\<forall>y \<in> set pre. \<not> lookup_fails fo cv sf ff (snd y)" by blast
  obtain i r where ir: "ir = (i, r)" by (cases ir)
  from ToPath_runes_success [OF ok] obtain st' where
    pre: "ToPath_runes fo cv sf ff ([], ffrom_int fo 0, 0) pre = Inr st'" by blast
  obtain p x prevIndex where st': "st' = (p, x, prevIndex)" by (cases st')
  have sp': "range_string s = pre @ (i, r) # post" using sp ir by simp
  have pre': "ToPath_runes fo cv sf ff ([], ffrom_int fo 0, 0) pre = Inr (p, x, prevIndex)"
    using pre st' by simp
  have f': "lookup_fails fo cv sf ff r" using f ir by simp
  from ToPath_at_failure [OF sp' pre' f'] sp' pre' f' show ?thesis by blast
qed

text \<open>
  C10: let the runes of the string be \<open>pre\<close>, then the rune \<open>r\<close> at byte index \<open>i\<close>, then
  \<open>post\<close>; let the loop of \<open>ToPath\<close> go through \<open>pre\<close> with no early return and reach the
  path \<open>p\<close> and the advance \<open>x\<close>; and let the glyph index of \<open>r\<close> or the loading of its
  glyph return an error. Then \<open>ToPath\<close> returns the path \<open>p\<close> with the advance \<open>0.0\<close>: the
  advance \<open>x\<close> is dropped. When the lookup fails for any rune of the string at all, there
  is a first such rune and this is what \<open>ToPath\<close> returns for it. The result of \<open>ToPath\<close>
  has no error component.
\<close>

theorem ToPath_lookup_failure:
  "(range_string s = pre @ (i, r) # post
      \<and> ToPath_runes fo cv sf ff ([], ffrom_int fo 0, 0) pre = Inr (p, x, prevIndex)
      \<and> lookup_fails fo cv sf ff r
    \<longrightarrow> ToPath fo cv sf ff s = (p, ffrom_int fo 0))
   \<and> ((\<exists>ir \<in> set (range_string s). lookup_fails fo cv sf ff (snd ir))
    \<longrightarrow> (\<exists>pre' i' r' post' p' x' prevIndex'.
           range_string s = pre' @ (i', r') # post'
         \<and> ToPath_runes fo cv sf ff ([], ffrom_int fo 0, 0) pre' = Inr (p', x', prevIndex')
         \<and> lookup_fails fo cv sf ff r'
         \<and> ToPath fo cv sf ff s = (p', ffrom_int fo 0)))"
  using ToPath_at_failure [of s pre i r post fo cv sf ff p x prevIndex]
    ToPath_first_failure [of s fo cv sf ff]
  by blast

theorem ToPath_lookup_failure_witness:
  "range_string ''ab'' = [(0, 0x61)] @ (1, 0x62) # []
   \<and> ToPath_runes exact_ops fixed_ops one_glyph_font regular_face ([], 0, 0) [(0, 0x61)]
       = Inr ([MoveTo 0 0, LineTo 1 0, LineTo 1 (- 1)], 2, 1)
   \<and> lookup_fails exact_ops fixed_ops one_glyph_font regular_face 0x62
   \<and> ToPath exact_ops fixed_ops one_glyph_font regular_face ''ab''
       = ([MoveTo 0 0, LineTo 1 0, LineTo 1 (- 1)], 0)"
proof -
  have r: "range_string ''ab'' = [(0, 0x61)] @ (1, 0x62) # []"
    by (simp add: range_string_def range_string_from.simps DecodeRuneInString_def)
  have pre: "ToPath_runes exact_ops fixed_ops one_glyph_font regular_face
      ([], ffrom_int exact_ops 0, 0) [(0, 0x61)]
       = Inr ([MoveTo 0 0, LineTo 1 0, LineTo 1 (- 1)], 2, 1)"
    by (simp add: ToPath_rune_def ToPath_segment_def sheared_def one_glyph_font_def
        fixed_ops_def exact_ops_def regular_face_def Empty_def Let_def)
  have f: "lookup_fails exact_ops fixed_ops one_glyph_font regular_face 0x62"
    by (simp add: lookup_fails_def one_glyph_font_def)
  have z: "ffrom_int exact_ops 0 = 0" by (simp add: exact_ops_def)
  from ToPath_lookup_failure [where s = "''ab''" and pre = "[(0, 0x61)]" and i = 1
      and r = "0x62" and post = "[]" and fo = exact_ops and cv = fixed_ops
      and sf = one_glyph_font and ff = regular_face
      and p = "[MoveTo 0 0, LineTo 1 0, LineTo 1 (- 1)]" and x = 2 and prevIndex = 1]
    r pre f
  have "ToPath exact_ops fixed_ops one_glyph_font regular_face ''ab''
       = ([MoveTo 0 0, LineTo 1 0, LineTo 1 (- 1)], ffrom_int exact_ops 0)"
    by blast
  with r pre f z show ?thesis by simp
qed

end
